theory Spec2Isabelle
  imports Complex_Main
begin

section \<open>Data model\<close>

text \<open>
  A pandas table is modelled row-wise: a list of records, one record per row, so that all
  columns have the same length by construction.  A \<open>Date\<close> is the day number of the
  row's timestamp (the source only ever subtracts two dates and reads \<open>.days\<close>).
  Prices and equity values are float64 in the source and \<open>real\<close> here: rounding is not
  modelled.  A float64 division by zero yields a sentinel, not an exception; where such a
  sentinel is what a column or a metric reports (the internal bar strength, the standard
  deviation, the Sharpe ratio, the profit factor, the drawdown of an empty column) the value
  has type \<open>fval\<close>.  The divisions by a price stay real divisions, and the theorems
  about them are stated for prices that are not zero.
\<close>

datatype fval = Fin real | PInf | NInf | NaN

datatype error = ZeroDivisionError

text \<open>float64 division \<open>a / b\<close> of two finite values.\<close>

definition fdiv :: "real \<Rightarrow> real \<Rightarrow> fval" where
  "fdiv a b =
     (if b \<noteq> 0 then Fin (a / b)
      else if a = 0 then NaN
      else if 0 < a then PInf
      else NInf)"

text \<open>float64 comparison \<open>v < c\<close> against a finite constant; false on not-a-number.\<close>

definition fless :: "fval \<Rightarrow> real \<Rightarrow> bool" where
  "fless v c = (case v of Fin x \<Rightarrow> x < c | NInf \<Rightarrow> True | PInf \<Rightarrow> False | NaN \<Rightarrow> False)"

record dc =
  Date :: int
  Close :: real

record bar = dc +
  Open :: real
  High :: real
  Low :: real
  Volume :: real

text \<open>The working table of a strategy, with its two condition series as columns.\<close>

record cond_row = dc +
  buy_condition :: bool
  sell_condition :: bool

text \<open>The table returned by \<open>generate_signals\<close>: Date, Close, Signal, EquityCurve.\<close>

record row = dc +
  Signal :: int
  EquityCurve :: real

record trade =
  Entry_Date :: "int option"
  Exit_Date :: int
  Entry_Price :: real
  Exit_Price :: real
  Return_pct :: real

record metrics =
  Total_Trades :: nat
  Total_Return :: real
  CAGR :: real
  Sharpe_Ratio :: fval
  Max_Drawdown :: fval
  Win_Rate :: real
  Profit_Factor :: fval
  Avg_Trade :: real
  Avg_Win :: real
  Avg_Loss :: real
  Volatility :: fval

section \<open>Signal state machine (strategy1.py 33-49, strategy4.py 32-46)\<close>

text \<open>
  The loop \<open>for i in range(len(df))\<close> with the mutable flag \<open>in_position\<close>; the value
  written to \<open>Signal\<close> at row \<open>i\<close> depends on the flag and on the two conditions at
  row \<open>i\<close> only.  (strategy1 also assigns \<open>entry_price\<close> here and never reads it.)
\<close>

fun signal_loop :: "bool \<Rightarrow> cond_row list \<Rightarrow> int list" where
  "signal_loop in_position [] = []"
| "signal_loop in_position (r # rest) =
     (if \<not> in_position \<and> buy_condition r then 1 # signal_loop True rest
      else if in_position \<and> sell_condition r then (- 1) # signal_loop False rest
      else 0 # signal_loop in_position rest)"

section \<open>Equity curve (strategy1.py 52-70, strategy4.py 48-67)\<close>

record eq_state =
  in_position :: bool
  entry_price :: real
  table :: "row list"

text \<open>One iteration of \<open>for i in range(1, len(df))\<close>: reads row \<open>i - 1\<close>, writes row \<open>i\<close>.\<close>

definition set_equity :: "row list \<Rightarrow> nat \<Rightarrow> real \<Rightarrow> row list" where
  "set_equity df i v = df[i := (df ! i)\<lparr>EquityCurve := v\<rparr>]"

definition equity_step :: "nat \<Rightarrow> eq_state \<Rightarrow> eq_state" where
  "equity_step i st =
     (let df = table st in
      if Signal (df ! (i - 1)) = 1 then
        st\<lparr>in_position := True,
           entry_price := Close (df ! (i - 1)),
           table := set_equity df i (EquityCurve (df ! (i - 1)))\<rparr>
      else if Signal (df ! (i - 1)) = - 1 \<and> in_position st then
        (let exit_price = Close (df ! (i - 1));
             pct_change = (exit_price - entry_price st) / entry_price st
         in st\<lparr>in_position := False,
               table := set_equity df i (EquityCurve (df ! (i - 1)) * (1 + pct_change))\<rparr>)
      else
        st\<lparr>table := set_equity df i (EquityCurve (df ! (i - 1)))\<rparr>)"

text \<open>The state before iteration \<open>k\<close> (after the iterations \<open>1, ..., k - 1\<close>).\<close>

definition equity_init :: "row list \<Rightarrow> eq_state" where
  "equity_init df =
     \<lparr>in_position = False, entry_price = 0,
      table = map (\<lambda>r. r\<lparr>EquityCurve := 1\<rparr>) df\<rparr>"

definition equity_state :: "row list \<Rightarrow> nat \<Rightarrow> eq_state" where
  "equity_state df k = fold equity_step [1..<k] (equity_init df)"

definition equity_loop :: "row list \<Rightarrow> row list" where
  "equity_loop df = table (equity_state df (length df))"

text \<open>
  The common tail of both \<open>generate_signals\<close>: the Signal column from the state machine,
  the EquityCurve column from the replay, and the four returned columns.
\<close>

definition attach_signals :: "cond_row list \<Rightarrow> row list" where
  "attach_signals w =
     map (\<lambda>(r, s). \<lparr>Date = Date r, Close = Close r, Signal = s, EquityCurve = 1\<rparr>)
       (zip w (signal_loop False w))"

definition signals_and_equity :: "cond_row list \<Rightarrow> row list" where
  "signals_and_equity w = equity_loop (attach_signals w)"

section \<open>Indicator calculator\<close>

text \<open>
  A pandas Series with undefined entries is a list of options (\<open>None\<close> for NaN).
  \<open>rolling(window=w).agg()\<close> is defined at position \<open>i\<close> once the window of the last
  \<open>w\<close> entries is full and holds no undefined entry; \<open>shift(1)\<close> moves every entry one
  row down and leaves the first row undefined.
\<close>

definition rolling :: "nat \<Rightarrow> (real list \<Rightarrow> real) \<Rightarrow> real option list \<Rightarrow> real option list" where
  "rolling w agg xs =
     map (\<lambda>i. if i + 1 < w then None
               else map_option agg (those (take w (drop (i + 1 - w) xs))))
       [0..<length xs]"

definition shift1 :: "'a option list \<Rightarrow> 'a option list" where
  "shift1 xs = (if xs = [] then [] else None # butlast xs)"

definition series_max :: "real list \<Rightarrow> real" where
  "series_max xs = Max (set xs)"

definition series_min :: "real list \<Rightarrow> real" where
  "series_min xs = Min (set xs)"

definition mean :: "real list \<Rightarrow> real" where
  "mean xs = sum_list xs / real (length xs)"

definition opt_sub :: "real option \<Rightarrow> real option \<Rightarrow> real option" where
  "opt_sub a b = (case (a, b) of (Some x, Some y) \<Rightarrow> Some (x - y) | _ \<Rightarrow> None)"

text \<open>\<open>Close > High.shift(1)\<close> on the working table; a comparison with NaN is false.\<close>

definition sell_series :: "bar list \<Rightarrow> bool list" where
  "sell_series w =
     map (\<lambda>(b, p). case p of None \<Rightarrow> False | Some h \<Rightarrow> h < Close b)
       (zip w (shift1 (map (\<lambda>b. Some (High b)) w)))"

subsection \<open>strategy1.generate_signals\<close>

record ind1 =
  src1 :: bar
  High_10D :: "real option"
  Range_25D :: "real option"
  Buy_Threshold :: "real option"
  IBS :: fval

definition indicators1 :: "bar list \<Rightarrow> ind1 list" where
  "indicators1 df =
     (let h10 = rolling 10 series_max (map (\<lambda>b. Some (High b)) df);
          r25 = rolling 25 mean (map (\<lambda>b. Some (High b - Low b)) df)
      in map (\<lambda>(b, h, r).
            \<lparr>src1 = b, High_10D = h, Range_25D = r, Buy_Threshold = opt_sub h r,
             IBS = fdiv (Close b - Low b) (High b - Low b)\<rparr>)
           (zip df (zip h10 r25)))"

definition dropna1 :: "ind1 list \<Rightarrow> ind1 list" where
  "dropna1 t =
     filter (\<lambda>r. High_10D r \<noteq> None \<and> Range_25D r \<noteq> None \<and> Buy_Threshold r \<noteq> None
                 \<and> IBS r \<noteq> NaN) t"

definition buy1 :: "ind1 \<Rightarrow> bool" where
  "buy1 r =
     ((case Buy_Threshold r of None \<Rightarrow> False | Some t \<Rightarrow> Close (src1 r) < t)
      \<and> fless (IBS r) (3 / 10))"

definition working1 :: "bar list \<Rightarrow> ind1 list" where
  "working1 df = dropna1 (indicators1 df)"

definition conditions1 :: "ind1 list \<Rightarrow> cond_row list" where
  "conditions1 t =
     map (\<lambda>(r, s). \<lparr>Date = Date (src1 r), Close = Close (src1 r),
                     buy_condition = buy1 r, sell_condition = s\<rparr>)
       (zip t (sell_series (map src1 t)))"

definition generate_signals1 :: "bar list \<Rightarrow> row list" where
  "generate_signals1 df = signals_and_equity (conditions1 (working1 df))"

subsection \<open>strategy4.generate_signals\<close>

record ind4 =
  src4 :: bar
  Range_col :: real
  Min_Range_6D :: "real option"
  SMA_200 :: "real option"

definition indicators4 :: "bar list \<Rightarrow> ind4 list" where
  "indicators4 df =
     (let rng = map (\<lambda>b. High b - Low b) df;
          m6 = rolling 6 series_min (shift1 (map Some rng));
          sma = rolling 200 mean (map (\<lambda>b. Some (Close b)) df)
      in map (\<lambda>(b, m, s). \<lparr>src4 = b, Range_col = High b - Low b, Min_Range_6D = m, SMA_200 = s\<rparr>)
           (zip df (zip m6 sma)))"

definition dropna4 :: "ind4 list \<Rightarrow> ind4 list" where
  "dropna4 t = filter (\<lambda>r. Min_Range_6D r \<noteq> None \<and> SMA_200 r \<noteq> None) t"

definition buy4 :: "ind4 \<Rightarrow> bool" where
  "buy4 r =
     ((case Min_Range_6D r of None \<Rightarrow> False | Some m \<Rightarrow> Range_col r < m)
      \<and> (case SMA_200 r of None \<Rightarrow> False | Some s \<Rightarrow> s < Close (src4 r)))"

definition working4 :: "bar list \<Rightarrow> ind4 list" where
  "working4 df = dropna4 (indicators4 df)"

definition conditions4 :: "ind4 list \<Rightarrow> cond_row list" where
  "conditions4 t =
     map (\<lambda>(r, s). \<lparr>Date = Date (src4 r), Close = Close (src4 r),
                     buy_condition = buy4 r, sell_condition = s\<rparr>)
       (zip t (sell_series (map src4 t)))"

definition generate_signals4 :: "bar list \<Rightarrow> row list" where
  "generate_signals4 df = signals_and_equity (conditions4 (working4 df))"

section \<open>Trade ledger and metrics (backtest.py, calculate_metrics)\<close>

text \<open>\<open>df["Signal"].diff().fillna(0)\<close>: the first entry is undefined and filled with 0.\<close>

definition diff_fillna0 :: "int list \<Rightarrow> int list" where
  "diff_fillna0 xs =
     (case xs of [] \<Rightarrow> [] | x # rest \<Rightarrow> 0 # map (\<lambda>(a, b). a - b) (zip rest xs))"

definition entries :: "row list \<Rightarrow> nat list" where
  "entries df =
     filter (\<lambda>i. diff_fillna0 (map Signal df) ! i = 1) [0..<length df]"

definition exits :: "row list \<Rightarrow> nat list" where
  "exits df =
     filter (\<lambda>i. diff_fillna0 (map Signal df) ! i = - 2) [0..<length df]"

definition total_return :: "row list \<Rightarrow> real" where
  "total_return df = EquityCurve (last df) / EquityCurve (hd df) - 1"

definition num_years :: "row list \<Rightarrow> real" where
  "num_years df = real_of_int (Date (last df) - Date (hd df)) / 365"

text \<open>
  \<open>num_years\<close> is a Python float, and \<open>1 / num_years\<close> raises ZeroDivisionError when it
  is zero.
\<close>

definition cagr :: "row list \<Rightarrow> error + real" where
  "cagr df =
     (if num_years df = 0 then Inl ZeroDivisionError
      else Inr ((1 + total_return df) powr (1 / num_years df) - 1))"

text \<open>\<open>pct_change().fillna(0)\<close> of the equity column.\<close>

definition daily_return :: "real list \<Rightarrow> real list" where
  "daily_return eq =
     (case eq of [] \<Rightarrow> [] | e # rest \<Rightarrow> 0 # map (\<lambda>(a, b). a / b - 1) (zip rest eq))"

text \<open>
  The sample standard deviation (pandas \<open>std\<close>, one degree of freedom removed); not a
  number on fewer than two values.
\<close>

definition sample_std :: "real list \<Rightarrow> fval" where
  "sample_std xs =
     (if length xs < 2 then NaN
      else Fin (sqrt (sum_list (map (\<lambda>x. (x - mean xs)\<^sup>2) xs) / (real (length xs) - 1))))"

text \<open>\<open>np.sqrt(252) * avg_daily_return / daily_std\<close>; a not-a-number operand gives one.\<close>

definition sharpe_ratio :: "real list \<Rightarrow> fval" where
  "sharpe_ratio eq =
     (let r = daily_return eq in
      case sample_std r of
        Fin s \<Rightarrow> fdiv (sqrt 252 * mean r) s
      | _ \<Rightarrow> NaN)"

definition volatility :: "real list \<Rightarrow> fval" where
  "volatility eq =
     (case sample_std (daily_return eq) of Fin s \<Rightarrow> Fin (s * sqrt 252) | v \<Rightarrow> v)"

fun cummax_from :: "real \<Rightarrow> real list \<Rightarrow> real list" where
  "cummax_from m [] = []"
| "cummax_from m (x # xs) = max m x # cummax_from (max m x) xs"

definition cummax :: "real list \<Rightarrow> real list" where
  "cummax xs = (case xs of [] \<Rightarrow> [] | x # rest \<Rightarrow> cummax_from x xs)"

definition drawdown :: "real list \<Rightarrow> real list" where
  "drawdown eq = map (\<lambda>(e, p). (e - p) / p) (zip eq (cummax eq))"

text \<open>The minimum of a pandas Series; not-a-number on an empty Series.\<close>

definition max_drawdown :: "real list \<Rightarrow> fval" where
  "max_drawdown eq =
     (let dd = drawdown eq in if dd = [] then NaN else Fin (Min (set dd)))"

record scan_state =
  position :: int
  scan_entry_price :: real
  entry_date :: "int option"
  trades :: "trade list"

text \<open>One iteration of the trade loop (backtest.py 54-69) at row \<open>r\<close>.\<close>

definition scan_step :: "row \<Rightarrow> scan_state \<Rightarrow> scan_state" where
  "scan_step r st =
     (if Signal r = 1 \<and> position st = 0 then
        st\<lparr>position := 1, scan_entry_price := Close r, entry_date := Some (Date r)\<rparr>
      else if Signal r = - 1 \<and> position st = 1 then
        st\<lparr>position := 0,
           trades := trades st @
             [\<lparr>Entry_Date = entry_date st, Exit_Date = Date r,
               Entry_Price = scan_entry_price st, Exit_Price = Close r,
               Return_pct = (Close r - scan_entry_price st) / scan_entry_price st * 100\<rparr>]\<rparr>
      else st)"

definition scan_init :: scan_state where
  "scan_init = \<lparr>position = 0, scan_entry_price = 0, entry_date = None, trades = []\<rparr>"

definition scan_trades :: "row list \<Rightarrow> trade list" where
  "scan_trades df = trades (fold scan_step df scan_init)"

definition profit_factor :: "real list \<Rightarrow> fval" where
  "profit_factor rets =
     (let profits = sum_list (filter (\<lambda>r. 0 < r) rets);
          losses = \<bar>sum_list (filter (\<lambda>r. r < 0) rets)\<bar>
      in if losses \<noteq> 0 then Fin (profits / losses) else PInf)"

definition mean_or_zero :: "real list \<Rightarrow> real" where
  "mean_or_zero xs = (if 0 < length xs then mean xs else 0)"

text \<open>
  The metrics are kept as numbers; the source formats them into strings for display
  (\<open>nan\<close> and \<open>inf\<close> for the sentinels).
\<close>

definition calculate_metrics :: "row list \<Rightarrow> error + (metrics \<times> trade list) option" where
  "calculate_metrics df =
     (if length (entries df) = 0 \<or> length (exits df) = 0 then Inr None
      else
        (case cagr df of
           Inl e \<Rightarrow> Inl e
         | Inr c \<Rightarrow>
            (let eq = map EquityCurve df;
                 trades_df = scan_trades df;
                 rets = map Return_pct trades_df
             in if length trades_df = 0 then Inr None
                else Inr (Some
                  (\<lparr>Total_Trades = length trades_df,
                    Total_Return = total_return df,
                    CAGR = c,
                    Sharpe_Ratio = sharpe_ratio eq,
                    Max_Drawdown = max_drawdown eq,
                    Win_Rate = real (length (filter (\<lambda>r. 0 < r) rets)) / real (length rets),
                    Profit_Factor = profit_factor rets,
                    Avg_Trade = mean rets,
                    Avg_Win = mean_or_zero (filter (\<lambda>r. 0 < r) rets),
                    Avg_Loss = mean_or_zero (filter (\<lambda>r. r < 0) rets),
                    Volatility = volatility eq\<rparr>,
                   trades_df)))))"

section \<open>Properties stated by the specification\<close>

text \<open>
  Strict alternation in the specification's words: the non-hold signals read
  buy, sell, buy, sell, ... starting with the expected one, and the number of sells is the
  number of buys or one less.
\<close>

fun alternates :: "int \<Rightarrow> int list \<Rightarrow> bool" where
  "alternates e [] = True"
| "alternates e (x # xs) = (x = e \<and> alternates (- e) xs)"

definition strict_alternation :: "int list \<Rightarrow> bool" where
  "strict_alternation sigs =
     (alternates 1 (filter (\<lambda>s. s \<noteq> 0) sigs)
      \<and> (count_list sigs (- 1) = count_list sigs 1
           \<or> count_list sigs (- 1) + 1 = count_list sigs 1))"

section \<open>Concrete tables\<close>

text \<open>Four bars; the entry condition holds at bar 1 only, the exit condition at bar 3 only.\<close>

definition gap_conditions :: "cond_row list" where
  "gap_conditions =
     [\<lparr>Date = 0, Close = 100, buy_condition = False, sell_condition = False\<rparr>,
      \<lparr>Date = 1, Close = 100, buy_condition = True, sell_condition = False\<rparr>,
      \<lparr>Date = 2, Close = 110, buy_condition = False, sell_condition = False\<rparr>,
      \<lparr>Date = 3, Close = 120, buy_condition = False, sell_condition = True\<rparr>]"

definition gap_table :: "row list" where
  "gap_table =
     [\<lparr>Date = 0, Close = 100, Signal = 0, EquityCurve = 1\<rparr>,
      \<lparr>Date = 1, Close = 100, Signal = 1, EquityCurve = 1\<rparr>,
      \<lparr>Date = 2, Close = 110, Signal = 0, EquityCurve = 1\<rparr>,
      \<lparr>Date = 3, Close = 120, Signal = - 1, EquityCurve = 1\<rparr>]"

text \<open>
  The scenario of the specification: closes 100, 110, 90, 130, the entry condition true
  at bar 0 only, the exit condition true at bar 3 (its value \<open>x\<close> at bar 0 is left open:
  the entry is taken there).
\<close>

definition scenario :: "int \<Rightarrow> int \<Rightarrow> int \<Rightarrow> int \<Rightarrow> bool \<Rightarrow> cond_row list" where
  "scenario d0 d1 d2 d3 x =
     [\<lparr>Date = d0, Close = 100, buy_condition = True, sell_condition = x\<rparr>,
      \<lparr>Date = d1, Close = 110, buy_condition = False, sell_condition = False\<rparr>,
      \<lparr>Date = d2, Close = 90, buy_condition = False, sell_condition = False\<rparr>,
      \<lparr>Date = d3, Close = 130, buy_condition = False, sell_condition = True\<rparr>]"

text \<open>An equity column that rises to 1.2 and falls to 0.9.\<close>

definition dip_table :: "row list" where
  "dip_table =
     [\<lparr>Date = 0, Close = 100, Signal = 0, EquityCurve = 1\<rparr>,
      \<lparr>Date = 1, Close = 100, Signal = 0, EquityCurve = 6 / 5\<rparr>,
      \<lparr>Date = 2, Close = 110, Signal = 0, EquityCurve = 9 / 10\<rparr>]"

text \<open>A buy at bar 1 and a sell at bar 2 at the same close: the equity stays at 1.0.\<close>

definition flat_table :: "row list" where
  "flat_table =
     [\<lparr>Date = 0, Close = 100, Signal = 0, EquityCurve = 1\<rparr>,
      \<lparr>Date = 1, Close = 100, Signal = 1, EquityCurve = 1\<rparr>,
      \<lparr>Date = 2, Close = 100, Signal = - 1, EquityCurve = 1\<rparr>,
      \<lparr>Date = 3, Close = 100, Signal = 0, EquityCurve = 1\<rparr>]"

text \<open>An ordinary bar: open 10, high 12, low 9, close 11.\<close>

definition plain_bar :: "int \<Rightarrow> bar" where
  "plain_bar d = \<lparr>Date = d, Close = 11, Open = 10, High = 12, Low = 9, Volume = 1000\<rparr>"


text \<open>
  The completed round trips of a Signal series, in the specification's words: a buy at
  \<open>i\<close>, a later sell at \<open>j\<close>, and only holds between them.
\<close>

definition round_trips :: "int list \<Rightarrow> (nat \<times> nat) set" where
  "round_trips sigs =
     {(i, j). i < j \<and> j < length sigs \<and> sigs ! i = 1 \<and> sigs ! j = - 1
              \<and> (\<forall>k. i < k \<and> k < j \<longrightarrow> sigs ! k = 0)}"

text \<open>The trade the specification describes for a buy row and a sell row.\<close>

definition trade_of :: "row \<Rightarrow> row \<Rightarrow> trade" where
  "trade_of b s =
     \<lparr>Entry_Date = Some (Date b), Exit_Date = Date s,
      Entry_Price = Close b, Exit_Price = Close s,
      Return_pct = (Close s - Close b) / Close b * 100\<rparr>"

text \<open>
  The invariant of the trade loop after the rows \<open>df\<close>: the ledger holds the round trips
  so far, in order, and an open position is a buy followed by holds only.
\<close>

definition scan_inv :: "row list \<Rightarrow> scan_state \<Rightarrow> bool" where
  "scan_inv df st =
     ((\<exists>ps. trades st = map (\<lambda>(i, j). trade_of (df ! i) (df ! j)) ps
            \<and> sorted_wrt (\<lambda>p q. snd p < fst q) ps
            \<and> set ps = round_trips (map Signal df))
      \<and> (position st = 0 \<and> even (length (filter (\<lambda>s. s \<noteq> 0) (map Signal df)))
          \<or> position st = 1 \<and> odd (length (filter (\<lambda>s. s \<noteq> 0) (map Signal df)))
            \<and> (\<exists>e<length df. Signal (df ! e) = 1
                  \<and> (\<forall>k. e < k \<and> k < length df \<longrightarrow> Signal (df ! k) = 0)
                  \<and> scan_entry_price st = Close (df ! e)
                  \<and> entry_date st = Some (Date (df ! e)))))"

text \<open>A buy at bar 0 (close 100), a hold, a sell at bar 2 (close 120), and one bar more.\<close>

definition held_table :: "row list" where
  "held_table =
     [\<lparr>Date = 0, Close = 100, Signal = 1, EquityCurve = 1\<rparr>,
      \<lparr>Date = 1, Close = 110, Signal = 0, EquityCurve = 1\<rparr>,
      \<lparr>Date = 2, Close = 120, Signal = - 1, EquityCurve = 1\<rparr>,
      \<lparr>Date = 3, Close = 120, Signal = 0, EquityCurve = 1\<rparr>]"



text \<open>
  Six bars with two round trips, each with a hold between the buy and the sell: the entry
  condition holds at bars 0 and 3, the exit condition at bars 2 and 5.
\<close>

definition twice_conditions :: "cond_row list" where
  "twice_conditions =
     [\<lparr>Date = 0, Close = 100, buy_condition = True, sell_condition = False\<rparr>,
      \<lparr>Date = 1, Close = 105, buy_condition = False, sell_condition = False\<rparr>,
      \<lparr>Date = 2, Close = 110, buy_condition = False, sell_condition = True\<rparr>,
      \<lparr>Date = 3, Close = 100, buy_condition = True, sell_condition = False\<rparr>,
      \<lparr>Date = 4, Close = 95, buy_condition = False, sell_condition = False\<rparr>,
      \<lparr>Date = 5, Close = 90, buy_condition = False, sell_condition = True\<rparr>]"

definition twice_table :: "row list" where
  "twice_table =
     [\<lparr>Date = 0, Close = 100, Signal = 1, EquityCurve = 1\<rparr>,
      \<lparr>Date = 1, Close = 105, Signal = 0, EquityCurve = 1\<rparr>,
      \<lparr>Date = 2, Close = 110, Signal = - 1, EquityCurve = 1\<rparr>,
      \<lparr>Date = 3, Close = 100, Signal = 1, EquityCurve = 11 / 10\<rparr>,
      \<lparr>Date = 4, Close = 95, Signal = 0, EquityCurve = 11 / 10\<rparr>,
      \<lparr>Date = 5, Close = 90, Signal = - 1, EquityCurve = 11 / 10\<rparr>]"

section \<open>The signal state machine alternates\<close>

lemma signal_loop_length: "length (signal_loop p w) = length w"
  by (induction w arbitrary: p) auto

lemma signal_loop_alternates:
  "alternates (if p then - 1 else 1) (filter (\<lambda>s. s \<noteq> 0) (signal_loop p w))"
proof (induction w arbitrary: p)
  case Nil
  show ?case by simp
next
  case (Cons r w)
  from Cons [of True] have t: "alternates (- 1) (filter (\<lambda>s. s \<noteq> 0) (signal_loop True w))"
    by simp
  from Cons [of False] have f: "alternates 1 (filter (\<lambda>s. s \<noteq> 0) (signal_loop False w))"
    by simp
  show ?case using t f by (cases p) simp_all
qed

lemma signal_loop_counts:
  "\<exists>f::bool. count_list (signal_loop p w) (- 1) + (if f then 1 else 0)
       = count_list (signal_loop p w) 1 + (if p then 1 else (0::nat))"
proof (induction w arbitrary: p)
  case Nil
  show ?case by (rule exI [of _ p]) simp
next
  case (Cons r w)
  show ?case
  proof (cases "\<not> p \<and> buy_condition r")
    case True
    from Cons [of True] obtain f where
      "count_list (signal_loop True w) (- 1) + (if f then 1 else 0)
         = count_list (signal_loop True w) 1 + 1" by auto
    with True show ?thesis by (intro exI [of _ f]) simp
  next
    case nb: False
    show ?thesis
    proof (cases "p \<and> sell_condition r")
      case True
      from Cons [of False] obtain f where
        "count_list (signal_loop False w) (- 1) + (if f then 1 else 0)
           = count_list (signal_loop False w) 1 + 0" by auto
      with True show ?thesis by (intro exI [of _ f]) simp
    next
      case False
      from Cons [of p] obtain f where
        "count_list (signal_loop p w) (- 1) + (if f then 1 else 0)
           = count_list (signal_loop p w) 1 + (if p then 1 else 0)" by blast
      with nb False show ?thesis by (intro exI [of _ f]) auto
    qed
  qed
qed

lemma signal_loop_values: "set (signal_loop p w) \<subseteq> {1, 0, - 1}"
  by (induction w arbitrary: p) auto

lemma attach_signals_Signal: "map Signal (attach_signals w) = signal_loop False w"
  unfolding attach_signals_def
  by (rule nth_equalityI) (simp_all add: signal_loop_length)

section \<open>The equity loop\<close>

lemma set_equity_length: "length (set_equity df i v) = length df"
  by (simp add: set_equity_def)

lemma set_equity_more:
  "Signal (set_equity df i v ! j) = Signal (df ! j)"
  "Close (set_equity df i v ! j) = Close (df ! j)"
  "Date (set_equity df i v ! j) = Date (df ! j)"
proof -
  have "set_equity df i v ! j = df ! j \<or> set_equity df i v ! j = (df ! j)\<lparr>EquityCurve := v\<rparr>"
    by (cases "i < length df"; cases "i = j") (simp_all add: set_equity_def list_update_beyond)
  then show "Signal (set_equity df i v ! j) = Signal (df ! j)"
    and "Close (set_equity df i v ! j) = Close (df ! j)"
    and "Date (set_equity df i v ! j) = Date (df ! j)"
    by auto
qed

lemma set_equity_EquityCurve:
  "i < length df \<Longrightarrow>
   EquityCurve (set_equity df i v ! j) = (if j = i then v else EquityCurve (df ! j))"
  by (simp add: set_equity_def)

lemma equity_step_length: "length (table (equity_step i st)) = length (table st)"
  by (simp add: equity_step_def Let_def set_equity_length)

lemma equity_step_more:
  "Signal (table (equity_step i st) ! j) = Signal (table st ! j)"
  "Close (table (equity_step i st) ! j) = Close (table st ! j)"
  "Date (table (equity_step i st) ! j) = Date (table st ! j)"
  by (simp_all add: equity_step_def Let_def set_equity_more)

lemma equity_step_other:
  "j \<noteq> i \<Longrightarrow> EquityCurve (table (equity_step i st) ! j) = EquityCurve (table st ! j)"
  by (cases "i < length (table st)") (simp_all add: equity_step_def Let_def set_equity_def)

lemma equity_state_0: "equity_state df 0 = equity_init df"
  by (simp add: equity_state_def)

lemma equity_state_1: "equity_state df (Suc 0) = equity_init df"
  by (simp add: equity_state_def)

lemma equity_state_Suc:
  "1 \<le> k \<Longrightarrow> equity_state df (Suc k) = equity_step k (equity_state df k)"
  by (simp add: equity_state_def)

lemma equity_state_length: "length (table (equity_state df k)) = length df"
proof (induction k)
  case 0
  show ?case by (simp add: equity_state_0 equity_init_def)
next
  case (Suc k)
  show ?case
  proof (cases "1 \<le> k")
    case True
    then show ?thesis using Suc by (simp add: equity_state_Suc equity_step_length)
  next
    case False
    then have "k = 0" by simp
    then show ?thesis by (simp add: equity_state_1 equity_init_def)
  qed
qed

lemma equity_init_more:
  "j < length df \<Longrightarrow> Signal (table (equity_init df) ! j) = Signal (df ! j)"
  "j < length df \<Longrightarrow> Close (table (equity_init df) ! j) = Close (df ! j)"
  "j < length df \<Longrightarrow> Date (table (equity_init df) ! j) = Date (df ! j)"
  "j < length df \<Longrightarrow> EquityCurve (table (equity_init df) ! j) = 1"
  by (simp_all add: equity_init_def)

lemma equity_state_more_conj:
  "j < length df \<Longrightarrow>
   Signal (table (equity_state df k) ! j) = Signal (df ! j)
   \<and> Close (table (equity_state df k) ! j) = Close (df ! j)
   \<and> Date (table (equity_state df k) ! j) = Date (df ! j)"
proof (induction k)
  case 0
  then show ?case by (simp add: equity_state_0 equity_init_more)
next
  case (Suc k)
  show ?case
  proof (cases "1 \<le> k")
    case True
    with Suc show ?thesis by (simp add: equity_state_Suc equity_step_more)
  next
    case False
    then have "k = 0" by simp
    with Suc.prems show ?thesis by (simp add: equity_state_1 equity_init_more)
  qed
qed

lemma equity_state_more:
  assumes "j < length df"
  shows "Signal (table (equity_state df k) ! j) = Signal (df ! j)"
    and "Close (table (equity_state df k) ! j) = Close (df ! j)"
    and "Date (table (equity_state df k) ! j) = Date (df ! j)"
  using equity_state_more_conj [OF assms, of k] by simp_all

text \<open>Rows not yet reached still hold the initial 1.0; row 0 is never written.\<close>

lemma equity_state_unwritten:
  "j < length df \<Longrightarrow> k \<le> j \<or> j = 0 \<Longrightarrow> EquityCurve (table (equity_state df k) ! j) = 1"
proof (induction k)
  case 0
  then show ?case by (simp add: equity_state_0 equity_init_more)
next
  case (Suc k)
  show ?case
  proof (cases "1 \<le> k")
    case True
    with Suc.prems have "j \<noteq> k" by auto
    with Suc True show ?thesis by (auto simp add: equity_state_Suc equity_step_other)
  next
    case False
    then have "k = 0" by simp
    with Suc.prems show ?thesis by (simp add: equity_state_1 equity_init_more)
  qed
qed

text \<open>A row written by iteration \<open>j\<close> is not touched by a later iteration.\<close>

lemma equity_state_stable:
  "j < k \<Longrightarrow>
   EquityCurve (table (equity_state df k) ! j) = EquityCurve (table (equity_state df (Suc j)) ! j)"
proof (induction k)
  case 0
  then show ?case by simp
next
  case (Suc k)
  show ?case
  proof (cases "j = k")
    case True
    then show ?thesis by simp
  next
    case False
    with Suc.prems have jk: "j < k" by simp
    then have "1 \<le> k" by simp
    with jk Suc.IH False show ?thesis by (simp add: equity_state_Suc equity_step_other)
  qed
qed

lemma equity_loop_length: "length (equity_loop df) = length df"
  by (simp add: equity_loop_def equity_state_length)

lemma equity_loop_Signal: "map Signal (equity_loop df) = map Signal df"
  by (rule nth_equalityI) (simp_all add: equity_loop_length, simp add: equity_loop_def equity_state_more)

lemma equity_loop_nth:
  "j < length df \<Longrightarrow>
   EquityCurve (equity_loop df ! j) = EquityCurve (table (equity_state df (Suc j)) ! j)"
  unfolding equity_loop_def by (rule equity_state_stable)


lemma equity_step_written:
  "i < length (table st) \<Longrightarrow>
   EquityCurve (table (equity_step i st) ! i) =
     (if Signal (table st ! (i - 1)) = 1 then EquityCurve (table st ! (i - 1))
      else if Signal (table st ! (i - 1)) = - 1 \<and> in_position st
        then EquityCurve (table st ! (i - 1))
             * (1 + (Close (table st ! (i - 1)) - entry_price st) / entry_price st)
      else EquityCurve (table st ! (i - 1)))"
  by (simp add: equity_step_def Let_def set_equity_def)

lemma equity_step_in_position:
  "in_position (equity_step i st) =
     (if Signal (table st ! (i - 1)) = 1 then True
      else if Signal (table st ! (i - 1)) = - 1 \<and> in_position st then False
      else in_position st)"
  by (simp add: equity_step_def Let_def)

lemma equity_step_entry_price:
  "entry_price (equity_step i st) =
     (if Signal (table st ! (i - 1)) = 1 then Close (table st ! (i - 1)) else entry_price st)"
  by (simp add: equity_step_def Let_def)

lemma equity_loop_first: "df \<noteq> [] \<Longrightarrow> EquityCurve (equity_loop df ! 0) = 1"
  by (simp add: equity_loop_nth equity_state_unwritten)

lemma equity_loop_prev:
  assumes "1 \<le> i" "i < length df"
  shows "EquityCurve (table (equity_state df i) ! (i - 1)) = EquityCurve (equity_loop df ! (i - 1))"
proof -
  from assms have "i - 1 < length df" "Suc (i - 1) = i" by simp_all
  then show ?thesis by (simp add: equity_loop_nth)
qed

lemma equity_loop_rec:
  assumes "1 \<le> i" "i < length df"
  shows "EquityCurve (equity_loop df ! i) =
     (if Signal (df ! (i - 1)) = 1 then EquityCurve (equity_loop df ! (i - 1))
      else if Signal (df ! (i - 1)) = - 1 \<and> in_position (equity_state df i)
        then EquityCurve (equity_loop df ! (i - 1))
             * (1 + (Close (df ! (i - 1)) - entry_price (equity_state df i))
                    / entry_price (equity_state df i))
      else EquityCurve (equity_loop df ! (i - 1)))"
proof -
  from assms have p: "i - 1 < length df" by simp
  have "EquityCurve (equity_loop df ! i)
      = EquityCurve (table (equity_step i (equity_state df i)) ! i)"
    using assms by (simp add: equity_loop_nth equity_state_Suc)
  also have "\<dots> =
     (if Signal (table (equity_state df i) ! (i - 1)) = 1
        then EquityCurve (table (equity_state df i) ! (i - 1))
      else if Signal (table (equity_state df i) ! (i - 1)) = - 1 \<and> in_position (equity_state df i)
        then EquityCurve (table (equity_state df i) ! (i - 1))
             * (1 + (Close (table (equity_state df i) ! (i - 1)) - entry_price (equity_state df i))
                    / entry_price (equity_state df i))
      else EquityCurve (table (equity_state df i) ! (i - 1)))"
    using assms by (intro equity_step_written) (simp add: equity_state_length)
  finally show ?thesis
    by (simp only: equity_state_more [OF p] equity_loop_prev [OF assms])
qed

lemma equity_state_after:
  assumes "1 \<le> i" "i < length df"
  shows "in_position (equity_state df (Suc i)) =
     (if Signal (df ! (i - 1)) = 1 then True
      else if Signal (df ! (i - 1)) = - 1 \<and> in_position (equity_state df i) then False
      else in_position (equity_state df i))"
    and "entry_price (equity_state df (Suc i)) =
     (if Signal (df ! (i - 1)) = 1 then Close (df ! (i - 1)) else entry_price (equity_state df i))"
proof -
  from assms have p: "i - Suc 0 < length df" by simp
  show "in_position (equity_state df (Suc i)) =
     (if Signal (df ! (i - 1)) = 1 then True
      else if Signal (df ! (i - 1)) = - 1 \<and> in_position (equity_state df i) then False
      else in_position (equity_state df i))"
    using assms by (simp add: equity_state_Suc equity_step_in_position equity_state_more [OF p])
  show "entry_price (equity_state df (Suc i)) =
     (if Signal (df ! (i - 1)) = 1 then Close (df ! (i - 1)) else entry_price (equity_state df i))"
    using assms by (simp add: equity_state_Suc equity_step_entry_price equity_state_more [OF p])
qed

text \<open>The state before iteration \<open>k\<close> is a function of the rows before \<open>k - 1\<close>.\<close>

lemma equity_state_prefix:
  assumes len: "length df' = length df" and tk: "take i df' = take i df" and i: "i < length df"
  shows "k \<le> Suc i \<Longrightarrow>
     in_position (equity_state df' k) = in_position (equity_state df k)
     \<and> entry_price (equity_state df' k) = entry_price (equity_state df k)
     \<and> (\<forall>j<k. EquityCurve (table (equity_state df' k) ! j)
               = EquityCurve (table (equity_state df k) ! j))"
proof (induction k)
  case 0
  show ?case by (simp add: equity_state_0 equity_init_def)
next
  case (Suc k)
  show ?case
  proof (cases "1 \<le> k")
    case False
    then have "k = 0" by simp
    moreover from i have "0 < length df" by (cases df) simp_all
    moreover from this len have "0 < length df'" by simp
    ultimately show ?thesis by (simp add: equity_state_1 equity_init_def)
  next
    case True
    from Suc.prems have ki: "k \<le> i" by simp
    with Suc.IH have ih:
      "in_position (equity_state df' k) = in_position (equity_state df k)"
      "entry_price (equity_state df' k) = entry_price (equity_state df k)"
      "\<And>j. j < k \<Longrightarrow> EquityCurve (table (equity_state df' k) ! j)
               = EquityCurve (table (equity_state df k) ! j)"
      by simp_all
    from True ki i have p: "k - 1 < length df" "k - 1 < length df'" "k - 1 < i" "k - 1 < k"
      using len by simp_all
    have "df' ! (k - 1) = take i df' ! (k - 1)" using p by simp
    also have "\<dots> = df ! (k - 1)" using p tk by simp
    finally have same: "df' ! (k - 1) = df ! (k - 1)" .
    have rd: "Signal (table (equity_state df' k) ! (k - 1)) = Signal (table (equity_state df k) ! (k - 1))"
      "Close (table (equity_state df' k) ! (k - 1)) = Close (table (equity_state df k) ! (k - 1))"
      "EquityCurve (table (equity_state df' k) ! (k - 1)) = EquityCurve (table (equity_state df k) ! (k - 1))"
      using p same by (simp_all add: equity_state_more ih(3))
    have kl: "k < length (table (equity_state df k))" "k < length (table (equity_state df' k))"
      using ki i len by (simp_all add: equity_state_length)
    have w: "EquityCurve (table (equity_step k (equity_state df' k)) ! k)
           = EquityCurve (table (equity_step k (equity_state df k)) ! k)"
      by (simp only: equity_step_written [OF kl(1)] equity_step_written [OF kl(2)] rd ih(1,2))
    have o: "\<And>j. j < k \<Longrightarrow> EquityCurve (table (equity_step k (equity_state df' k)) ! j)
           = EquityCurve (table (equity_step k (equity_state df k)) ! j)"
      by (simp add: equity_step_other ih(3))
    have all: "\<forall>j<Suc k. EquityCurve (table (equity_step k (equity_state df' k)) ! j)
           = EquityCurve (table (equity_step k (equity_state df k)) ! j)"
      using w o by (auto simp add: less_Suc_eq)
    show ?thesis using True all
      by (simp only: equity_state_Suc equity_step_in_position equity_step_entry_price rd ih(1,2))
  qed
qed

lemma equity_loop_prefix:
  assumes "length df' = length df" "take i df' = take i df" "i < length df"
  shows "EquityCurve (equity_loop df' ! i) = EquityCurve (equity_loop df ! i)"
proof -
  have "\<forall>j<Suc i. EquityCurve (table (equity_state df' (Suc i)) ! j)
               = EquityCurve (table (equity_state df (Suc i)) ! j)"
    using equity_state_prefix [OF assms, of "Suc i"] by simp
  then show ?thesis using assms by (simp add: equity_loop_nth)
qed

lemma signals_and_equity_Signal: "map Signal (signals_and_equity w) = signal_loop False w"
  by (simp add: signals_and_equity_def equity_loop_Signal attach_signals_Signal)

lemma strict_alternation_signal_loop: "strict_alternation (signal_loop False w)"
proof -
  have a: "alternates 1 (filter (\<lambda>s. s \<noteq> 0) (signal_loop False w))"
    using signal_loop_alternates [of False w] by simp
  obtain f :: bool where
    "count_list (signal_loop False w) (- 1) + (if f then 1 else 0)
       = count_list (signal_loop False w) 1 + (if False then 1 else (0::nat))"
    using signal_loop_counts [of False w] by blast
  then have "count_list (signal_loop False w) (- 1) = count_list (signal_loop False w) 1
      \<or> count_list (signal_loop False w) (- 1) + 1 = count_list (signal_loop False w) 1"
    by (cases f) simp_all
  with a show ?thesis by (simp add: strict_alternation_def)
qed

section \<open>The pipeline: absent result, scenario, alternation, lag-one equity\<close>

lemma calculate_metrics_without_trades:
  "scan_trades df = [] \<Longrightarrow>
   calculate_metrics df = Inr None \<or> (\<exists>e. calculate_metrics df = Inl e)"
  by (auto simp add: calculate_metrics_def Let_def split: sum.splits)

text \<open>
  C1.  The claim: \<open>calculate_metrics\<close> returns the absent result exactly when the Signal
  series holds no completed round trip.  The code returns the absent result on a table
  that the state machine produces and that holds one round trip (buy at bar 1, sell at
  bar 3): the early check looks for a signal difference of \<open>-2\<close>, which only a sell on the
  bar right after a buy produces.
\<close>

theorem calculate_metrics_absent_despite_round_trip:
  "signals_and_equity gap_conditions = gap_table
   \<and> scan_trades gap_table =
       [\<lparr>Entry_Date = Some 1, Exit_Date = 3, Entry_Price = 100, Exit_Price = 120,
         Return_pct = 20\<rparr>]
   \<and> exits gap_table = []
   \<and> calculate_metrics gap_table = Inr None"
proof -
  have "signals_and_equity gap_conditions = gap_table"
    by (simp add: signals_and_equity_def attach_signals_def gap_conditions_def gap_table_def
        equity_loop_def equity_state_def equity_init_def equity_step_def set_equity_def
        upt_rec Let_def)
  moreover have "scan_trades gap_table =
       [\<lparr>Entry_Date = Some 1, Exit_Date = 3, Entry_Price = 100, Exit_Price = 120,
         Return_pct = 20\<rparr>]"
    by (simp add: scan_trades_def gap_table_def scan_step_def scan_init_def)
  moreover have e: "exits gap_table = []"
    by (simp add: exits_def gap_table_def diff_fillna0_def upt_rec)
  moreover have "calculate_metrics gap_table = Inr None"
    by (simp add: calculate_metrics_def e)
  ultimately show ?thesis by simp
qed

text \<open>
  C2 as stated: on the scenario the equity curve is [1.0, 1.0, 1.0, 1.3].  It is not:
  the sell at the last bar would be realised on the next bar, and there is none.
\<close>

theorem scenario_equity_not_realised:
  "map EquityCurve (signals_and_equity (scenario 0 1 2 3 False)) \<noteq> [1, 1, 1, 13 / 10]"
  by (simp add: signals_and_equity_def attach_signals_def scenario_def
      equity_loop_def equity_state_def equity_init_def equity_step_def set_equity_def
      upt_rec Let_def)

text \<open>
  C2, amended.  On the scenario the state machine emits buy, hold, hold, sell; the trade
  scan over the returned table yields exactly one trade, entered at 100 and left at 130 with a
  return of 30 percent; and the equity curve is [1.0, 1.0, 1.0, 1.0].
\<close>

theorem scenario_trade_and_equity:
  "map Signal (signals_and_equity (scenario d0 d1 d2 d3 x)) = [1, 0, 0, - 1]
   \<and> map Close (signals_and_equity (scenario d0 d1 d2 d3 x)) = [100, 110, 90, 130]
   \<and> scan_trades (signals_and_equity (scenario d0 d1 d2 d3 x)) =
       [\<lparr>Entry_Date = Some d0, Exit_Date = d3, Entry_Price = 100, Exit_Price = 130,
         Return_pct = 30\<rparr>]
   \<and> map EquityCurve (signals_and_equity (scenario d0 d1 d2 d3 x)) = [1, 1, 1, 1]"
proof -
  have t: "signals_and_equity (scenario d0 d1 d2 d3 x) =
     [\<lparr>Date = d0, Close = 100, Signal = 1, EquityCurve = 1\<rparr>,
      \<lparr>Date = d1, Close = 110, Signal = 0, EquityCurve = 1\<rparr>,
      \<lparr>Date = d2, Close = 90, Signal = 0, EquityCurve = 1\<rparr>,
      \<lparr>Date = d3, Close = 130, Signal = - 1, EquityCurve = 1\<rparr>]"
    by (simp add: signals_and_equity_def attach_signals_def scenario_def
        equity_loop_def equity_state_def equity_init_def equity_step_def set_equity_def
        upt_rec Let_def)
  show ?thesis
    unfolding t by (simp add: scan_trades_def scan_step_def scan_init_def)
qed

text \<open>
  C3.  For every working table and every pair of condition series, the Signal column
  returned by the common tail of \<open>generate_signals\<close> alternates strictly between buy and
  sell, starting with buy, and the number of sells is the number of buys or one less; so
  it does for strategy1 and for strategy4 on every bar series.
\<close>

theorem signals_strictly_alternate:
  "strict_alternation (map Signal (signals_and_equity w))
   \<and> strict_alternation (map Signal (generate_signals1 df1))
   \<and> strict_alternation (map Signal (generate_signals4 df4))"
  by (simp add: generate_signals1_def generate_signals4_def signals_and_equity_Signal
      strict_alternation_signal_loop)

text \<open>
  C4.  The equity curve has the length of the table and starts at 1.0 (on a table with a
  first row), and the loop starts flat.  At every later row \<open>i\<close>: after a buy signal at
  row \<open>i - 1\<close> the equity is carried over, the position is open and the entry price is the
  close of row \<open>i - 1\<close>; after a sell signal at row \<open>i - 1\<close> with a position open at a
  (non-zero) entry price \<open>p\<close> the equity is multiplied by \<open>1 + (close[i-1] - p) / p\<close> and
  the position is closed; otherwise the equity is carried over and the position and its
  entry price stay as they were (so an open position is the last buy not yet sold).  The
  equity at row \<open>i\<close> is the same for any two tables that agree on the rows before \<open>i\<close>,
  so it does not depend on the signal at row \<open>i\<close>.
\<close>

theorem equity_curve_lag_one:
  "length (equity_loop df) = length df
   \<and> (df \<noteq> [] \<longrightarrow> EquityCurve (equity_loop df ! 0) = 1)
   \<and> \<not> in_position (equity_state df 1)
   \<and> (\<forall>i. 1 \<le> i \<and> i < length df \<longrightarrow>
        (Signal (df ! (i - 1)) = 1 \<longrightarrow>
           EquityCurve (equity_loop df ! i) = EquityCurve (equity_loop df ! (i - 1))
           \<and> in_position (equity_state df (Suc i))
           \<and> entry_price (equity_state df (Suc i)) = Close (df ! (i - 1)))
        \<and> (Signal (df ! (i - 1)) = - 1 \<and> in_position (equity_state df i) \<longrightarrow>
           \<not> in_position (equity_state df (Suc i))
           \<and> entry_price (equity_state df (Suc i)) = entry_price (equity_state df i))
        \<and> (Signal (df ! (i - 1)) = - 1 \<and> in_position (equity_state df i)
            \<and> entry_price (equity_state df i) \<noteq> 0 \<longrightarrow>
           EquityCurve (equity_loop df ! i) =
             EquityCurve (equity_loop df ! (i - 1))
             * (1 + (Close (df ! (i - 1)) - entry_price (equity_state df i))
                    / entry_price (equity_state df i)))
        \<and> (Signal (df ! (i - 1)) \<noteq> 1
            \<and> \<not> (Signal (df ! (i - 1)) = - 1 \<and> in_position (equity_state df i)) \<longrightarrow>
           EquityCurve (equity_loop df ! i) = EquityCurve (equity_loop df ! (i - 1))
           \<and> in_position (equity_state df (Suc i)) = in_position (equity_state df i)
           \<and> entry_price (equity_state df (Suc i)) = entry_price (equity_state df i))
        \<and> (\<forall>df'. length df' = length df \<and> take i df' = take i df \<longrightarrow>
              EquityCurve (equity_loop df' ! i) = EquityCurve (equity_loop df ! i)))"
proof (intro conjI allI impI)
  show "length (equity_loop df) = length df" by (rule equity_loop_length)
next
  assume "df \<noteq> []"
  then show "EquityCurve (equity_loop df ! 0) = 1" by (rule equity_loop_first)
next
  show "\<not> in_position (equity_state df 1)"
    by (simp add: equity_state_def equity_init_def)
next
  fix i assume i: "1 \<le> i \<and> i < length df" and s: "Signal (df ! (i - 1)) = 1"
  from i have i1: "1 \<le> i" and i2: "i < length df" by simp_all
  from s show "EquityCurve (equity_loop df ! i) = EquityCurve (equity_loop df ! (i - 1))"
    using equity_loop_rec [OF i1 i2] by simp
  from s show "in_position (equity_state df (Suc i))"
    using equity_state_after(1) [OF i1 i2] by simp
  from s show "entry_price (equity_state df (Suc i)) = Close (df ! (i - 1))"
    using equity_state_after(2) [OF i1 i2] by simp
next
  fix i assume i: "1 \<le> i \<and> i < length df"
    and s: "Signal (df ! (i - 1)) = - 1 \<and> in_position (equity_state df i)"
  from i have i1: "1 \<le> i" and i2: "i < length df" by simp_all
  from s have n1: "Signal (df ! (i - 1)) \<noteq> 1" by simp
  from n1 s show "\<not> in_position (equity_state df (Suc i))"
    using equity_state_after(1) [OF i1 i2] by simp
  from n1 s show "entry_price (equity_state df (Suc i)) = entry_price (equity_state df i)"
    using equity_state_after(2) [OF i1 i2] by simp
next
  fix i assume i: "1 \<le> i \<and> i < length df"
    and s: "Signal (df ! (i - 1)) = - 1 \<and> in_position (equity_state df i)
            \<and> entry_price (equity_state df i) \<noteq> 0"
  from i have i1: "1 \<le> i" and i2: "i < length df" by simp_all
  from s have n1: "Signal (df ! (i - 1)) \<noteq> 1" by simp
  from s have c: "Signal (df ! (i - 1)) = - 1 \<and> in_position (equity_state df i)" by simp
  from n1 c show "EquityCurve (equity_loop df ! i) =
             EquityCurve (equity_loop df ! (i - 1))
             * (1 + (Close (df ! (i - 1)) - entry_price (equity_state df i))
                    / entry_price (equity_state df i))"
    using equity_loop_rec [OF i1 i2] by simp
next
  fix i assume i: "1 \<le> i \<and> i < length df"
    and s: "Signal (df ! (i - 1)) \<noteq> 1
            \<and> \<not> (Signal (df ! (i - 1)) = - 1 \<and> in_position (equity_state df i))"
  from i have i1: "1 \<le> i" and i2: "i < length df" by simp_all
  from s have n1: "Signal (df ! (i - 1)) \<noteq> 1"
    and n2: "\<not> (Signal (df ! (i - 1)) = - 1 \<and> in_position (equity_state df i))" by simp_all
  from n1 n2 show "EquityCurve (equity_loop df ! i) = EquityCurve (equity_loop df ! (i - 1))"
    using equity_loop_rec [OF i1 i2] by (cases "in_position (equity_state df i)") auto
  from n1 n2 show "in_position (equity_state df (Suc i)) = in_position (equity_state df i)"
    using equity_state_after(1) [OF i1 i2] by (cases "in_position (equity_state df i)") auto
  from n1 show "entry_price (equity_state df (Suc i)) = entry_price (equity_state df i)"
    using equity_state_after(2) [OF i1 i2] by simp
next
  fix i df' assume i: "1 \<le> i \<and> i < length df"
    and d: "length df' = length df \<and> take i df' = take i df"
  then show "EquityCurve (equity_loop df' ! i) = EquityCurve (equity_loop df ! i)"
    by (intro equity_loop_prefix) simp_all
qed

theorem equity_curve_lag_one_witness:
  "EquityCurve (equity_loop held_table ! 0) = 1
   \<and> EquityCurve (equity_loop held_table ! 1) = 1
   \<and> EquityCurve (equity_loop held_table ! 2) = 1
   \<and> EquityCurve (equity_loop held_table ! 3) = 6 / 5"
proof -
  have ne: "held_table \<noteq> []"
    and len: "length held_table = Suc (Suc (Suc (Suc 0)))"
    by (simp_all add: held_table_def)
  have rows: "Signal (held_table ! 0) = 1" "Signal (held_table ! Suc 0) = 0"
      "Signal (held_table ! Suc (Suc 0)) = - 1" "Close (held_table ! 0) = 100"
      "Close (held_table ! Suc (Suc 0)) = 120"
    by (simp_all add: held_table_def)
  note inst = equity_curve_lag_one [of held_table]
  note step = inst [THEN conjunct2, THEN conjunct2, THEN conjunct2, THEN spec]
  from inst ne have e0: "EquityCurve (equity_loop held_table ! 0) = 1" by blast
  note buy = step [THEN mp, THEN conjunct1]
  note sell = step [THEN mp, THEN conjunct2, THEN conjunct2, THEN conjunct1]
  note hold = step [THEN mp, THEN conjunct2, THEN conjunct2, THEN conjunct2, THEN conjunct1]
  from buy [of "Suc 0"] len rows e0
  have b1: "EquityCurve (equity_loop held_table ! Suc 0) = 1"
      "in_position (equity_state held_table (Suc (Suc 0)))"
      "entry_price (equity_state held_table (Suc (Suc 0))) = 100"
    by simp_all
  from hold [of "Suc (Suc 0)"] len rows b1
  have b2: "EquityCurve (equity_loop held_table ! Suc (Suc 0)) = 1"
      "in_position (equity_state held_table (Suc (Suc (Suc 0))))"
      "entry_price (equity_state held_table (Suc (Suc (Suc 0)))) = 100"
    by simp_all
  from sell [of "Suc (Suc (Suc 0))"] len rows b2
  have b3: "EquityCurve (equity_loop held_table ! Suc (Suc (Suc 0))) = 6 / 5"
    by simp
  from e0 b1(1) b2(1) b3 show ?thesis by (simp add: eval_nat_numeral)
qed

section \<open>Drawdown\<close>

lemma cummax_from_length: "length (cummax_from m xs) = length xs"
  by (induction xs arbitrary: m) simp_all

lemma drawdown_from_nonpos:
  "0 < m \<Longrightarrow> \<forall>x\<in>set xs. 0 < x \<Longrightarrow>
   \<forall>d\<in>set (map (\<lambda>(e, p). (e - p) / p) (zip xs (cummax_from m xs))). d \<le> 0"
proof (induction xs arbitrary: m)
  case Nil
  show ?case by simp
next
  case (Cons x xs)
  have pos: "0 < max m x" using Cons.prems by simp
  have hd: "(x - max m x) / max m x \<le> 0"
    using pos by (simp add: divide_le_0_iff)
  have "\<forall>d\<in>set (map (\<lambda>(e, p). (e - p) / p) (zip xs (cummax_from (max m x) xs))). d \<le> 0"
    using Cons.IH [OF pos] Cons.prems by simp
  with hd show ?case by simp
qed

lemma drawdown_from_zero:
  "0 < m \<Longrightarrow> \<forall>x\<in>set xs. 0 < x \<Longrightarrow>
   (\<forall>d\<in>set (map (\<lambda>(e, p). (e - p) / p) (zip xs (cummax_from m xs))). d = 0)
     = (sorted xs \<and> (\<forall>x\<in>set xs. m \<le> x))"
proof (induction xs arbitrary: m)
  case Nil
  show ?case by simp
next
  case (Cons x xs)
  have pos: "0 < max m x" using Cons.prems by simp
  have hd: "((x - max m x) / max m x = 0) = (m \<le> x)"
    using pos by auto
  have tl: "(\<forall>d\<in>set (map (\<lambda>(e, p). (e - p) / p) (zip xs (cummax_from (max m x) xs))). d = 0)
     = (sorted xs \<and> (\<forall>y\<in>set xs. max m x \<le> y))"
    using Cons.IH [OF pos] Cons.prems by simp
  have "(\<forall>d\<in>set (map (\<lambda>(e, p). (e - p) / p) (zip (x # xs) (cummax_from m (x # xs)))). d = 0)
      = (m \<le> x \<and> sorted xs \<and> (\<forall>y\<in>set xs. max m x \<le> y))"
    using hd tl by simp
  also have "\<dots> = (sorted (x # xs) \<and> (\<forall>y\<in>set (x # xs). m \<le> y))"
    by (auto simp add: max_def)
  finally show ?case .
qed

lemma drawdown_Cons:
  "drawdown (x # xs) = map (\<lambda>(e, p). (e - p) / p) (zip (x # xs) (cummax_from x (x # xs)))"
  by (simp add: drawdown_def cummax_def)

lemma max_drawdown_Cons:
  assumes "\<forall>e\<in>set (x # xs). 0 < e"
  shows "\<exists>d. max_drawdown (x # xs) = Fin d \<and> d \<le> 0 \<and> (d = 0 \<longleftrightarrow> sorted (x # xs))"
proof -
  let ?dd = "drawdown (x # xs)"
  have x: "0 < x" using assms by simp
  have ne: "?dd \<noteq> []" by (simp add: drawdown_Cons)
  then have fin: "finite (set ?dd)" "set ?dd \<noteq> {}" by simp_all
  have nonpos: "\<forall>d\<in>set ?dd. d \<le> 0"
    unfolding drawdown_Cons using drawdown_from_nonpos [OF x assms] .
  have zero: "(\<forall>d\<in>set ?dd. d = 0) = sorted (x # xs)"
  proof -
    have "(\<forall>d\<in>set ?dd. d = 0) = (sorted (x # xs) \<and> (\<forall>y\<in>set (x # xs). x \<le> y))"
      unfolding drawdown_Cons using drawdown_from_zero [OF x assms] .
    also have "\<dots> = sorted (x # xs)" by auto
    finally show ?thesis .
  qed
  have m: "max_drawdown (x # xs) = Fin (Min (set ?dd))"
    using ne by (simp add: max_drawdown_def Let_def)
  have mem: "Min (set ?dd) \<in> set ?dd" using fin by (rule Min_in)
  with nonpos have le: "Min (set ?dd) \<le> 0" by blast
  have "(Min (set ?dd) = 0) = (\<forall>d\<in>set ?dd. d = 0)"
  proof
    assume z: "Min (set ?dd) = 0"
    show "\<forall>d\<in>set ?dd. d = 0"
    proof
      fix d assume d: "d \<in> set ?dd"
      then have "Min (set ?dd) \<le> d" using fin by simp
      with z nonpos d show "d = 0" by force
    qed
  next
    assume "\<forall>d\<in>set ?dd. d = 0"
    with mem show "Min (set ?dd) = 0" by blast
  qed
  with zero have "(Min (set ?dd) = 0) = sorted (x # xs)" by simp
  with m le show ?thesis by blast
qed

lemma calculate_metrics_Max_Drawdown:
  "calculate_metrics df = Inr (Some (m, ts)) \<Longrightarrow> Max_Drawdown m = max_drawdown (map EquityCurve df)"
  by (auto simp add: calculate_metrics_def Let_def split: if_splits sum.splits)

text \<open>
  C8.  For an equity column with strictly positive values (and at least one row) the max
  drawdown, the minimum of (equity - running peak) / running peak, is a finite value that is
  at most 0, and it is 0 exactly when the column is non-decreasing; it is the value
  \<open>calculate_metrics\<close> reports.
\<close>

theorem max_drawdown_nonpositive:
  assumes "df \<noteq> []" and "\<forall>r\<in>set df. 0 < EquityCurve r"
  shows "\<exists>d. max_drawdown (map EquityCurve df) = Fin d \<and> d \<le> 0
           \<and> (d = 0 \<longleftrightarrow> sorted (map EquityCurve df))
           \<and> (\<forall>m ts. calculate_metrics df = Inr (Some (m, ts)) \<longrightarrow> Max_Drawdown m = Fin d)"
proof -
  from assms(1) obtain x xs where eq: "map EquityCurve df = x # xs"
    by (cases df) simp_all
  have "\<forall>e\<in>set (x # xs). 0 < e"
    using assms(2) unfolding eq [symmetric] by simp
  from max_drawdown_Cons [OF this] obtain d where
    d: "max_drawdown (x # xs) = Fin d" "d \<le> 0" "d = 0 \<longleftrightarrow> sorted (x # xs)" by blast
  have "\<forall>m ts. calculate_metrics df = Inr (Some (m, ts)) \<longrightarrow> Max_Drawdown m = Fin d"
    using d(1) by (simp add: calculate_metrics_Max_Drawdown eq)
  with d show ?thesis unfolding eq by blast
qed

theorem max_drawdown_nonpositive_witness:
  "\<exists>d. max_drawdown (map EquityCurve dip_table) = Fin d \<and> d < 0"
proof -
  have ne: "dip_table \<noteq> []"
    by (simp add: dip_table_def)
  have pos: "\<forall>r\<in>set dip_table. 0 < EquityCurve r"
    by (simp add: dip_table_def)
  have eq: "map EquityCurve dip_table = [1, 6 / 5, 9 / 10]"
    by (simp add: dip_table_def)
  have ns: "\<not> sorted (map EquityCurve dip_table)"
  proof
    assume "sorted (map EquityCurve dip_table)"
    then have "map EquityCurve dip_table ! 1 \<le> map EquityCurve dip_table ! 2"
      by (rule sorted_nth_mono) (simp_all add: eq)
    then show False by (simp add: eq)
  qed
  from max_drawdown_nonpositive [OF ne pos] obtain d where
    "max_drawdown (map EquityCurve dip_table) = Fin d" "d \<le> 0"
    "d = 0 \<longleftrightarrow> sorted (map EquityCurve dip_table)"
    by blast
  with ns have "max_drawdown (map EquityCurve dip_table) = Fin d \<and> d < 0" by simp
  then show ?thesis by blast
qed

section \<open>Metrics\<close>

lemma cagr_spec:
  assumes "Date (hd df) < Date (last df)"
  shows "cagr df =
     Inr ((1 + total_return df) powr (365 / real_of_int (Date (last df) - Date (hd df))) - 1)"
proof -
  from assms have "num_years df \<noteq> 0" by (simp add: num_years_def)
  moreover have "1 / num_years df = 365 / real_of_int (Date (last df) - Date (hd df))"
    by (simp add: num_years_def)
  ultimately show ?thesis by (simp add: cagr_def)
qed

lemma calculate_metrics_CAGR:
  "calculate_metrics df = Inr (Some (m, ts)) \<Longrightarrow> cagr df = Inr (CAGR m)"
  by (auto simp add: calculate_metrics_def Let_def split: if_splits sum.splits)

text \<open>
  C7.  When the last date is after the first, the CAGR of the code,
  \<open>(1 + total return) ^ (1 / (days / 365)) - 1\<close>, is the specification's
  \<open>(1 + total return) ^ (365 / days) - 1\<close>, and this is the value reported.
\<close>

theorem cagr_equals_spec_formula:
  assumes "df \<noteq> []" and "Date (hd df) < Date (last df)"
  shows "cagr df =
       Inr ((1 + total_return df) powr (365 / real_of_int (Date (last df) - Date (hd df))) - 1)
     \<and> (\<forall>m ts. calculate_metrics df = Inr (Some (m, ts)) \<longrightarrow>
          CAGR m = (1 + total_return df)
                     powr (365 / real_of_int (Date (last df) - Date (hd df))) - 1)"
proof (intro conjI allI impI)
  show c: "cagr df =
       Inr ((1 + total_return df) powr (365 / real_of_int (Date (last df) - Date (hd df))) - 1)"
    using assms(2) by (rule cagr_spec)
  fix m ts assume "calculate_metrics df = Inr (Some (m, ts))"
  then have "cagr df = Inr (CAGR m)" by (rule calculate_metrics_CAGR)
  with c show "CAGR m = (1 + total_return df)
                     powr (365 / real_of_int (Date (last df) - Date (hd df))) - 1"
    by simp
qed

theorem cagr_equals_spec_formula_witness:
  "cagr flat_table = Inr ((1 + total_return flat_table) powr (365 / 3) - 1)"
proof -
  have "flat_table \<noteq> []" "Date (hd flat_table) < Date (last flat_table)"
    "real_of_int (Date (last flat_table) - Date (hd flat_table)) = 3"
    by (simp_all add: flat_table_def)
  with cagr_equals_spec_formula [of flat_table] show ?thesis by simp
qed

lemma calculate_metrics_fields:
  assumes "calculate_metrics df = Inr (Some (m, ts))"
  shows "Sharpe_Ratio m = sharpe_ratio (map EquityCurve df)"
    and "Profit_Factor m = profit_factor (map Return_pct ts)"
    and "ts = scan_trades df"
  using assms
  by (auto simp add: calculate_metrics_def Let_def split: if_splits sum.splits)

lemma daily_return_hd: "daily_return eq \<noteq> [] \<Longrightarrow> hd (daily_return eq) = 0"
  by (cases eq) (simp_all add: daily_return_def)

lemma sharpe_ratio_zero_std:
  assumes "sample_std (daily_return eq) = Fin 0"
  shows "sharpe_ratio eq = NaN"
proof -
  let ?r = "daily_return eq"
  let ?sq = "map (\<lambda>x. (x - mean ?r)\<^sup>2) ?r"
  from assms have len: "2 \<le> length ?r"
    by (simp add: sample_std_def split: if_splits)
  then have ne: "?r \<noteq> []" by auto
  from assms len have "sqrt (sum_list ?sq / (real (length ?r) - 1)) = 0"
    by (simp add: sample_std_def split: if_splits)
  then have "sum_list ?sq / (real (length ?r) - 1) = 0" by simp
  moreover from len have "real (length ?r) - 1 \<noteq> 0" by simp
  ultimately have s0: "sum_list ?sq = 0" by simp
  have "\<forall>y\<in>set ?sq. 0 \<le> y" by auto
  then have "\<forall>y\<in>set ?sq. y = 0"
    using s0 by (simp only: sum_list_nonneg_eq_0_iff)
  moreover from ne have "hd ?r \<in> set ?r" by simp
  ultimately have "(hd ?r - mean ?r)\<^sup>2 = 0" by simp
  then have "mean ?r = 0" using daily_return_hd [OF ne] by simp
  with assms show ?thesis by (simp add: sharpe_ratio_def Let_def fdiv_def)
qed

lemma profit_factor_no_losses:
  assumes "\<forall>r\<in>set rets. \<not> r < 0"
  shows "profit_factor rets = PInf"
proof -
  from assms have "filter (\<lambda>r. r < 0) rets = []" by (simp add: filter_empty_conv)
  then show ?thesis by (simp add: profit_factor_def Let_def)
qed

lemma entries_two_rows: "entries df \<noteq> [] \<Longrightarrow> 2 \<le> length df"
proof (cases df)
  case Nil
  assume "entries df \<noteq> []"
  with Nil show ?thesis by (simp add: entries_def)
next
  case (Cons x xs)
  assume e: "entries df \<noteq> []"
  show ?thesis
  proof (cases xs)
    case Nil
    with Cons e show ?thesis by (simp add: entries_def diff_fillna0_def)
  next
    case (Cons y ys)
    with \<open>df = x # xs\<close> show ?thesis by simp
  qed
qed

lemma increasing_dates_first_last:
  assumes "sorted_wrt (<) (map Date df)" and "2 \<le> length df"
  shows "Date (hd df) < Date (last df)"
proof -
  from assms(2) have ne: "df \<noteq> []" by auto
  have "map Date df ! 0 < map Date df ! (length df - 1)"
    using assms by (intro sorted_wrt_nth_less [OF assms(1)]) simp_all
  then show ?thesis using ne assms(2) by (simp add: hd_conv_nth last_conv_nth)
qed

lemma calculate_metrics_no_error:
  assumes "sorted_wrt (<) (map Date df)"
  shows "calculate_metrics df \<noteq> Inl e"
proof (cases "length (entries df) = 0 \<or> length (exits df) = 0")
  case True
  then show ?thesis by (simp add: calculate_metrics_def)
next
  case False
  then have "entries df \<noteq> []" by simp
  then have "2 \<le> length df" by (rule entries_two_rows)
  with assms have "Date (hd df) < Date (last df)" by (rule increasing_dates_first_last)
  then have "num_years df \<noteq> 0" by (simp add: num_years_def)
  then show ?thesis using False by (simp add: calculate_metrics_def cagr_def Let_def)
qed

text \<open>
  C6.  Whenever \<open>calculate_metrics\<close> reports metrics: a daily-return standard deviation of
  zero gives the Sharpe ratio not-a-number, and a ledger without a losing trade gives the
  profit factor infinity.  On a table with strictly increasing dates it raises no error.
\<close>

theorem sentinels_reported:
  "(sorted_wrt (<) (map Date df) \<longrightarrow> (\<forall>e. calculate_metrics df \<noteq> Inl e))
   \<and> (\<forall>m ts. calculate_metrics df = Inr (Some (m, ts)) \<longrightarrow>
         (sample_std (daily_return (map EquityCurve df)) = Fin 0 \<longrightarrow> Sharpe_Ratio m = NaN)
         \<and> ((\<forall>t\<in>set ts. \<not> Return_pct t < 0) \<longrightarrow> Profit_Factor m = PInf))"
proof (intro conjI allI impI)
  fix e assume "sorted_wrt (<) (map Date df)"
  then show "calculate_metrics df \<noteq> Inl e" by (rule calculate_metrics_no_error)
next
  fix m ts assume c: "calculate_metrics df = Inr (Some (m, ts))"
    and "sample_std (daily_return (map EquityCurve df)) = Fin 0"
  then show "Sharpe_Ratio m = NaN"
    by (simp add: calculate_metrics_fields(1) sharpe_ratio_zero_std)
next
  fix m ts assume c: "calculate_metrics df = Inr (Some (m, ts))"
    and "\<forall>t\<in>set ts. \<not> Return_pct t < 0"
  then show "Profit_Factor m = PInf"
    by (simp add: calculate_metrics_fields(2) profit_factor_no_losses)
qed

theorem sentinels_reported_witness:
  "\<exists>m ts. calculate_metrics flat_table = Inr (Some (m, ts))
      \<and> Sharpe_Ratio m = NaN \<and> Profit_Factor m = PInf"
proof -
  have en: "entries flat_table = [1, 3]" and ex: "exits flat_table = [2]"
    by (simp_all add: entries_def exits_def flat_table_def diff_fillna0_def upt_rec)
  have ny: "num_years flat_table = 3 / 365"
    by (simp add: num_years_def flat_table_def)
  have tr: "scan_trades flat_table =
       [\<lparr>Entry_Date = Some 1, Exit_Date = 2, Entry_Price = 100, Exit_Price = 100,
         Return_pct = 0\<rparr>]"
    by (simp add: scan_trades_def flat_table_def scan_step_def scan_init_def)
  have "\<exists>m. calculate_metrics flat_table = Inr (Some (m, scan_trades flat_table))"
    by (simp add: calculate_metrics_def en ex cagr_def ny tr Let_def)
  then obtain m where c: "calculate_metrics flat_table = Inr (Some (m, scan_trades flat_table))"
    by blast
  have sd: "sample_std (daily_return (map EquityCurve flat_table)) = Fin 0"
    by (simp add: sample_std_def daily_return_def flat_table_def mean_def)
  have nl: "\<forall>t\<in>set (scan_trades flat_table). \<not> Return_pct t < 0"
    by (simp add: tr)
  from sentinels_reported [of flat_table] c sd nl
  have "Sharpe_Ratio m = NaN \<and> Profit_Factor m = PInf" by blast
  with c show ?thesis by blast
qed

section \<open>Indicator windows\<close>

lemma rolling_length: "length (rolling w agg xs) = length xs"
  by (simp add: rolling_def)

lemma rolling_short: "length xs < w \<Longrightarrow> v \<in> set (rolling w agg xs) \<Longrightarrow> v = None"
  by (auto simp add: rolling_def)

lemma indicators1_Range_25D:
  assumes "r \<in> set (indicators1 df)"
  shows "Range_25D r \<in> set (rolling 25 mean (map (\<lambda>b. Some (High b - Low b)) df))"
proof -
  from assms obtain b h q where
    z: "(b, h, q) \<in> set (zip df (zip (rolling 10 series_max (map (\<lambda>b. Some (High b)) df))
          (rolling 25 mean (map (\<lambda>b. Some (High b - Low b)) df))))"
    and r: "Range_25D r = q"
    by (auto simp add: indicators1_def Let_def)
  from z have "(h, q) \<in> set (zip (rolling 10 series_max (map (\<lambda>b. Some (High b)) df))
          (rolling 25 mean (map (\<lambda>b. Some (High b - Low b)) df)))"
    by (rule set_zip_rightD)
  then have "q \<in> set (rolling 25 mean (map (\<lambda>b. Some (High b - Low b)) df))"
    by (rule set_zip_rightD)
  with r show ?thesis by simp
qed

lemma indicators4_SMA_200:
  assumes "r \<in> set (indicators4 df)"
  shows "SMA_200 r \<in> set (rolling 200 mean (map (\<lambda>b. Some (Close b)) df))"
proof -
  from assms obtain b h q where
    z: "(b, h, q) \<in> set (zip df (zip
          (rolling 6 series_min (shift1 (map Some (map (\<lambda>b. High b - Low b) df))))
          (rolling 200 mean (map (\<lambda>b. Some (Close b)) df))))"
    and r: "SMA_200 r = q"
    by (auto simp add: indicators4_def Let_def)
  from z have "(h, q) \<in> set (zip
          (rolling 6 series_min (shift1 (map Some (map (\<lambda>b. High b - Low b) df))))
          (rolling 200 mean (map (\<lambda>b. Some (Close b)) df)))"
    by (rule set_zip_rightD)
  then have "q \<in> set (rolling 200 mean (map (\<lambda>b. Some (Close b)) df))"
    by (rule set_zip_rightD)
  with r show ?thesis by simp
qed

lemma working1_short: "length df < 25 \<Longrightarrow> working1 df = []"
proof -
  assume len: "length df < 25"
  have "\<forall>r\<in>set (indicators1 df). Range_25D r = None"
  proof
    fix r assume "r \<in> set (indicators1 df)"
    then have "Range_25D r \<in> set (rolling 25 mean (map (\<lambda>b. Some (High b - Low b)) df))"
      by (rule indicators1_Range_25D)
    with len show "Range_25D r = None" by (intro rolling_short [of _ 25]) simp_all
  qed
  then show ?thesis by (simp add: working1_def dropna1_def filter_empty_conv)
qed

lemma working4_short: "length df < 200 \<Longrightarrow> working4 df = []"
proof -
  assume len: "length df < 200"
  have "\<forall>r\<in>set (indicators4 df). SMA_200 r = None"
  proof
    fix r assume "r \<in> set (indicators4 df)"
    then have "SMA_200 r \<in> set (rolling 200 mean (map (\<lambda>b. Some (Close b)) df))"
      by (rule indicators4_SMA_200)
    with len show "SMA_200 r = None" by (intro rolling_short [of _ 200]) simp_all
  qed
  then show ?thesis by (simp add: working4_def dropna4_def filter_empty_conv)
qed

lemma signals_and_equity_Nil: "signals_and_equity [] = []"
  by (simp add: signals_and_equity_def attach_signals_def equity_loop_def equity_state_def
      equity_init_def)

text \<open>
  C9.  On fewer bars than the largest window of the strategy (25 for strategy1, 200 for
  strategy4) every row has an undefined indicator and is dropped: \<open>generate_signals\<close>
  returns the empty table.  (The model has no error result for \<open>generate_signals\<close>.)
\<close>

theorem short_series_gives_empty_table:
  "(length df < 25 \<longrightarrow> generate_signals1 df = [])
   \<and> (length df < 200 \<longrightarrow> generate_signals4 df = [])"
  by (simp add: generate_signals1_def generate_signals4_def working1_short working4_short
      conditions1_def conditions4_def signals_and_equity_Nil)

theorem short_series_gives_empty_table_witness:
  "generate_signals1 [plain_bar 0, plain_bar 1, plain_bar 2] = []
   \<and> generate_signals4 [plain_bar 0, plain_bar 1, plain_bar 2] = []"
  using short_series_gives_empty_table [of "[plain_bar 0, plain_bar 1, plain_bar 2]"] by simp

section \<open>Bars without range in strategy1\<close>
















section \<open>The trade loop\<close>

lemma alternates_snoc:
  "alternates e (xs @ [x]) = (alternates e xs \<and> x = (if even (length xs) then e else - e))"
  by (induction xs arbitrary: e) auto

lemma round_trips_bound: "(i, j) \<in> round_trips xs \<Longrightarrow> i < j \<and> j < length xs"
  by (simp add: round_trips_def)

lemma round_trips_snoc_old:
  "(i, j) \<in> round_trips (xs @ [x]) \<Longrightarrow> j < length xs \<Longrightarrow> (i, j) \<in> round_trips xs"
  by (auto simp add: round_trips_def nth_append)

lemma round_trips_snoc_mono:
  "(i, j) \<in> round_trips xs \<Longrightarrow> (i, j) \<in> round_trips (xs @ [x])"
  by (auto simp add: round_trips_def nth_append)

lemma round_trips_snoc_last:
  "((i, length xs) \<in> round_trips (xs @ [x])) =
     (x = - 1 \<and> i < length xs \<and> xs ! i = 1 \<and> (\<forall>k. i < k \<and> k < length xs \<longrightarrow> xs ! k = 0))"
  by (auto simp add: round_trips_def nth_append)

lemma round_trips_snoc_other:
  assumes "x \<noteq> - 1"
  shows "round_trips (xs @ [x]) = round_trips xs"
proof (rule set_eqI)
  fix p :: "nat \<times> nat"
  obtain i j where p: "p = (i, j)" by (cases p)
  show "(p \<in> round_trips (xs @ [x])) = (p \<in> round_trips xs)"
  proof
    assume a: "p \<in> round_trips (xs @ [x])"
    with p have "j < length (xs @ [x])" using round_trips_bound by blast
    then have "j < length xs \<or> j = length xs" by auto
    then show "p \<in> round_trips xs"
    proof
      assume "j < length xs"
      with a p show ?thesis using round_trips_snoc_old by blast
    next
      assume "j = length xs"
      with a p assms show ?thesis by (simp add: round_trips_snoc_last)
    qed
  next
    assume "p \<in> round_trips xs"
    with p show "p \<in> round_trips (xs @ [x])" using round_trips_snoc_mono by blast
  qed
qed

lemma round_trips_snoc_sell:
  assumes e: "e < length xs" "xs ! e = 1" "\<forall>k. e < k \<and> k < length xs \<longrightarrow> xs ! k = 0"
  shows "round_trips (xs @ [- 1]) = insert (e, length xs) (round_trips xs)"
proof (rule set_eqI)
  fix p :: "nat \<times> nat"
  obtain i j where p: "p = (i, j)" by (cases p)
  show "(p \<in> round_trips (xs @ [- 1])) = (p \<in> insert (e, length xs) (round_trips xs))"
  proof
    assume a: "p \<in> round_trips (xs @ [- 1])"
    with p have "j < length (xs @ [- 1])" using round_trips_bound by blast
    then have "j < length xs \<or> j = length xs" by auto
    then show "p \<in> insert (e, length xs) (round_trips xs)"
    proof
      assume "j < length xs"
      with a p show ?thesis using round_trips_snoc_old by blast
    next
      assume j: "j = length xs"
      with a p have i: "i < length xs" "xs ! i = 1" "\<forall>k. i < k \<and> k < length xs \<longrightarrow> xs ! k = 0"
        by (simp_all add: round_trips_snoc_last)
      have "i = e"
      proof (rule ccontr)
        assume "i \<noteq> e"
        then have "i < e \<or> e < i" by auto
        then show False
        proof
          assume "i < e"
          with i(3) e(1) have "xs ! e = 0" by simp
          with e(2) show False by simp
        next
          assume "e < i"
          with e(3) i(1) have "xs ! i = 0" by simp
          with i(2) show False by simp
        qed
      qed
      with j p show ?thesis by simp
    qed
  next
    assume "p \<in> insert (e, length xs) (round_trips xs)"
    then have "p = (e, length xs) \<or> p \<in> round_trips xs" by simp
    then show "p \<in> round_trips (xs @ [- 1])"
    proof
      assume "p = (e, length xs)"
      with e show ?thesis by (simp add: round_trips_snoc_last)
    next
      assume "p \<in> round_trips xs"
      with p show ?thesis using round_trips_snoc_mono by blast
    qed
  qed
qed

lemma trades_map_snoc:
  assumes "set ps = round_trips (map Signal df)"
  shows "map (\<lambda>(i, j). trade_of ((df @ [r]) ! i) ((df @ [r]) ! j)) ps
       = map (\<lambda>(i, j). trade_of (df ! i) (df ! j)) ps"
proof (rule map_cong [OF refl])
  fix p assume "p \<in> set ps"
  then have m: "p \<in> round_trips (map Signal df)" using assms by simp
  obtain i j where p: "p = (i, j)" by (cases p)
  with m have "i < j \<and> j < length (map Signal df)" using round_trips_bound by blast
  then have "i < length df" "j < length df" by simp_all
  with p show "(case p of (i, j) \<Rightarrow> trade_of ((df @ [r]) ! i) ((df @ [r]) ! j))
        = (case p of (i, j) \<Rightarrow> trade_of (df ! i) (df ! j))"
    by (simp add: nth_append)
qed

lemma scan_inv_hold:
  assumes inv: "scan_inv df st" and r: "Signal r = 0"
  shows "scan_inv (df @ [r]) (scan_step r st)"
proof -
  from inv obtain ps where
    ps: "trades st = map (\<lambda>(i, j). trade_of (df ! i) (df ! j)) ps"
      "sorted_wrt (\<lambda>p q. snd p < fst q) ps"
      "set ps = round_trips (map Signal df)"
    by (auto simp add: scan_inv_def)
  have st: "scan_step r st = st" using r by (simp add: scan_step_def)
  have rt: "round_trips (map Signal (df @ [r])) = round_trips (map Signal df)"
    using r round_trips_snoc_other [of "Signal r" "map Signal df"] by simp
  have nz: "filter (\<lambda>s. s \<noteq> 0) (map Signal (df @ [r])) = filter (\<lambda>s. s \<noteq> 0) (map Signal df)"
    using r by simp
  have led: "\<exists>ps'. trades st = map (\<lambda>(i, j). trade_of ((df @ [r]) ! i) ((df @ [r]) ! j)) ps'
        \<and> sorted_wrt (\<lambda>p q. snd p < fst q) ps'
        \<and> set ps' = round_trips (map Signal (df @ [r]))"
    using ps trades_map_snoc [OF ps(3), of r] rt by (intro exI [of _ ps]) simp
  from inv have "position st = 0 \<and> even (length (filter (\<lambda>s. s \<noteq> 0) (map Signal df)))
      \<or> position st = 1 \<and> odd (length (filter (\<lambda>s. s \<noteq> 0) (map Signal df)))
        \<and> (\<exists>e<length df. Signal (df ! e) = 1
              \<and> (\<forall>k. e < k \<and> k < length df \<longrightarrow> Signal (df ! k) = 0)
              \<and> scan_entry_price st = Close (df ! e)
              \<and> entry_date st = Some (Date (df ! e)))"
    by (simp add: scan_inv_def)
  then show ?thesis
  proof
    assume "position st = 0 \<and> even (length (filter (\<lambda>s. s \<noteq> 0) (map Signal df)))"
    with led nz show ?thesis unfolding scan_inv_def st by simp
  next
    assume a: "position st = 1 \<and> odd (length (filter (\<lambda>s. s \<noteq> 0) (map Signal df)))
        \<and> (\<exists>e<length df. Signal (df ! e) = 1
              \<and> (\<forall>k. e < k \<and> k < length df \<longrightarrow> Signal (df ! k) = 0)
              \<and> scan_entry_price st = Close (df ! e)
              \<and> entry_date st = Some (Date (df ! e)))"
    then obtain e where e: "e < length df" "Signal (df ! e) = 1"
        "\<forall>k. e < k \<and> k < length df \<longrightarrow> Signal (df ! k) = 0"
        "scan_entry_price st = Close (df ! e)" "entry_date st = Some (Date (df ! e))"
      by blast
    have "e < length (df @ [r]) \<and> Signal ((df @ [r]) ! e) = 1
        \<and> (\<forall>k. e < k \<and> k < length (df @ [r]) \<longrightarrow> Signal ((df @ [r]) ! k) = 0)
        \<and> scan_entry_price st = Close ((df @ [r]) ! e)
        \<and> entry_date st = Some (Date ((df @ [r]) ! e))"
      using e r by (auto simp add: nth_append less_Suc_eq)
    then have "\<exists>e<length (df @ [r]). Signal ((df @ [r]) ! e) = 1
        \<and> (\<forall>k. e < k \<and> k < length (df @ [r]) \<longrightarrow> Signal ((df @ [r]) ! k) = 0)
        \<and> scan_entry_price st = Close ((df @ [r]) ! e)
        \<and> entry_date st = Some (Date ((df @ [r]) ! e))"
      by blast
    with a led nz show ?thesis unfolding scan_inv_def st by simp
  qed
qed

lemma scan_inv_buy:
  assumes inv: "scan_inv df st" and r: "Signal r = 1"
    and flat: "position st = 0" "even (length (filter (\<lambda>s. s \<noteq> 0) (map Signal df)))"
  shows "scan_inv (df @ [r]) (scan_step r st)"
proof -
  from inv obtain ps where
    ps: "trades st = map (\<lambda>(i, j). trade_of (df ! i) (df ! j)) ps"
      "sorted_wrt (\<lambda>p q. snd p < fst q) ps"
      "set ps = round_trips (map Signal df)"
    by (auto simp add: scan_inv_def)
  let ?st = "scan_step r st"
  have st: "position ?st = 1" "trades ?st = trades st" "scan_entry_price ?st = Close r"
      "entry_date ?st = Some (Date r)"
    using r flat(1) by (simp_all add: scan_step_def)
  have rt: "round_trips (map Signal (df @ [r])) = round_trips (map Signal df)"
    using r round_trips_snoc_other [of "Signal r" "map Signal df"] by simp
  have led: "\<exists>ps'. trades ?st = map (\<lambda>(i, j). trade_of ((df @ [r]) ! i) ((df @ [r]) ! j)) ps'
        \<and> sorted_wrt (\<lambda>p q. snd p < fst q) ps'
        \<and> set ps' = round_trips (map Signal (df @ [r]))"
    using ps trades_map_snoc [OF ps(3), of r] rt st(2) by (intro exI [of _ ps]) simp
  have odd: "odd (length (filter (\<lambda>s. s \<noteq> 0) (map Signal (df @ [r]))))"
    using r flat(2) by simp
  have "length df < length (df @ [r]) \<and> Signal ((df @ [r]) ! length df) = 1
        \<and> (\<forall>k. length df < k \<and> k < length (df @ [r]) \<longrightarrow> Signal ((df @ [r]) ! k) = 0)
        \<and> scan_entry_price ?st = Close ((df @ [r]) ! length df)
        \<and> entry_date ?st = Some (Date ((df @ [r]) ! length df))"
    using r st by simp
  then have "\<exists>e<length (df @ [r]). Signal ((df @ [r]) ! e) = 1
        \<and> (\<forall>k. e < k \<and> k < length (df @ [r]) \<longrightarrow> Signal ((df @ [r]) ! k) = 0)
        \<and> scan_entry_price ?st = Close ((df @ [r]) ! e)
        \<and> entry_date ?st = Some (Date ((df @ [r]) ! e))"
    by blast
  with led odd st(1) show ?thesis unfolding scan_inv_def by blast
qed

lemma scan_inv_sell:
  assumes inv: "scan_inv df st" and r: "Signal r = - 1"
    and long: "position st = 1"
  shows "scan_inv (df @ [r]) (scan_step r st)"
proof -
  from inv obtain ps where
    ps: "trades st = map (\<lambda>(i, j). trade_of (df ! i) (df ! j)) ps"
      "sorted_wrt (\<lambda>p q. snd p < fst q) ps"
      "set ps = round_trips (map Signal df)"
    by (auto simp add: scan_inv_def)
  from inv long obtain e where
    od: "odd (length (filter (\<lambda>s. s \<noteq> 0) (map Signal df)))"
    and e: "e < length df" "Signal (df ! e) = 1"
        "\<forall>k. e < k \<and> k < length df \<longrightarrow> Signal (df ! k) = 0"
        "scan_entry_price st = Close (df ! e)" "entry_date st = Some (Date (df ! e))"
    by (auto simp add: scan_inv_def)
  let ?st = "scan_step r st"
  let ?ps = "ps @ [(e, length df)]"
  have st: "position ?st = 0" "trades ?st = trades st @ [trade_of (df ! e) r]"
    using r long e(4,5) by (simp_all add: scan_step_def trade_of_def)
  have e': "e < length (map Signal df)" "map Signal df ! e = 1"
      "\<forall>k. e < k \<and> k < length (map Signal df) \<longrightarrow> map Signal df ! k = 0"
    using e(1,2,3) by simp_all
  have rt: "round_trips (map Signal (df @ [r]))
      = insert (e, length df) (round_trips (map Signal df))"
    using r round_trips_snoc_sell [OF e'] by simp
  have t1: "trades ?st = map (\<lambda>(i, j). trade_of ((df @ [r]) ! i) ((df @ [r]) ! j)) ?ps"
    using st(2) ps(1) trades_map_snoc [OF ps(3), of r] e(1) by (simp add: nth_append)
  have before: "\<forall>p\<in>set ps. snd p < e"
  proof
    fix p assume "p \<in> set ps"
    then have m: "p \<in> round_trips (map Signal df)" using ps(3) by simp
    obtain i j where p: "p = (i, j)" by (cases p)
    with m have "j < length df \<and> map Signal df ! j = - 1"
      by (simp add: round_trips_def)
    then have j: "j < length df" "Signal (df ! j) = - 1" by auto
    have "j < e"
    proof (rule ccontr)
      assume "\<not> j < e"
      then have "j = e \<or> e < j" by auto
      then show False
      proof
        assume "j = e"
        with j(2) e(2) show False by simp
      next
        assume "e < j"
        with e(3) j(1) have "Signal (df ! j) = 0" by simp
        with j(2) show False by simp
      qed
    qed
    with p show "snd p < e" by simp
  qed
  have t2: "sorted_wrt (\<lambda>p q. snd p < fst q) ?ps"
    using ps(2) before by (simp add: sorted_wrt_append)
  have t3: "set ?ps = round_trips (map Signal (df @ [r]))"
    using ps(3) rt by simp
  have led: "\<exists>ps'. trades ?st = map (\<lambda>(i, j). trade_of ((df @ [r]) ! i) ((df @ [r]) ! j)) ps'
        \<and> sorted_wrt (\<lambda>p q. snd p < fst q) ps'
        \<and> set ps' = round_trips (map Signal (df @ [r]))"
    using t1 t2 t3 by blast
  have ev: "even (length (filter (\<lambda>s. s \<noteq> 0) (map Signal (df @ [r]))))"
    using r od by simp
  from led ev st(1) show ?thesis unfolding scan_inv_def by blast
qed

lemma scan_inv_step:
  assumes inv: "scan_inv df st"
    and alt: "alternates 1 (filter (\<lambda>s. s \<noteq> 0) (map Signal (df @ [r])))"
  shows "scan_inv (df @ [r]) (scan_step r st)"
proof (cases "Signal r = 0")
  case True
  with inv show ?thesis by (rule scan_inv_hold)
next
  case False
  then have "filter (\<lambda>s. s \<noteq> 0) (map Signal (df @ [r]))
      = filter (\<lambda>s. s \<noteq> 0) (map Signal df) @ [Signal r]"
    by simp
  with alt have sg: "Signal r =
      (if even (length (filter (\<lambda>s. s \<noteq> 0) (map Signal df))) then 1 else - 1)"
    by (simp add: alternates_snoc)
  from inv have "position st = 0 \<and> even (length (filter (\<lambda>s. s \<noteq> 0) (map Signal df)))
      \<or> position st = 1 \<and> odd (length (filter (\<lambda>s. s \<noteq> 0) (map Signal df)))"
    by (auto simp add: scan_inv_def)
  then show ?thesis
  proof
    assume a: "position st = 0 \<and> even (length (filter (\<lambda>s. s \<noteq> 0) (map Signal df)))"
    with sg have "Signal r = 1" by simp
    with inv a show ?thesis by (intro scan_inv_buy) simp_all
  next
    assume a: "position st = 1 \<and> odd (length (filter (\<lambda>s. s \<noteq> 0) (map Signal df)))"
    with sg have "Signal r = - 1" by simp
    with inv a show ?thesis by (intro scan_inv_sell) simp_all
  qed
qed

lemma scan_inv_init: "scan_inv [] scan_init"
  by (simp add: scan_inv_def scan_init_def round_trips_def)

lemma scan_inv_fold:
  "alternates 1 (filter (\<lambda>s. s \<noteq> 0) (map Signal df)) \<Longrightarrow>
   scan_inv df (fold scan_step df scan_init)"
proof (induction df rule: rev_induct)
  case Nil
  show ?case by (simp add: scan_inv_init)
next
  case (snoc r df)
  have "alternates 1 (filter (\<lambda>s. s \<noteq> 0) (map Signal df))"
  proof (cases "Signal r = 0")
    case True
    with snoc.prems show ?thesis by simp
  next
    case False
    with snoc.prems show ?thesis by (simp add: alternates_snoc)
  qed
  then have "scan_inv df (fold scan_step df scan_init)" by (rule snoc.IH)
  then have "scan_inv (df @ [r]) (scan_step r (fold scan_step df scan_init))"
    using snoc.prems by (rule scan_inv_step)
  then show ?case by simp
qed

lemma calculate_metrics_ledger:
  "calculate_metrics df = Inr (Some (m, ts)) \<Longrightarrow> ts = scan_trades df"
  by (auto simp add: calculate_metrics_def Let_def split: if_splits sum.splits)

text \<open>
  The trade loop on its own (backtest.py 49-69).  On a table whose Signal column
  alternates strictly (as every column of the state machine does) and whose closes are not
  zero, the ledger of the loop is, in order, one trade for each buy at a row \<open>i\<close> followed
  by a sell at a later row \<open>j\<close> with only holds between them: entry date and close of row
  \<open>i\<close>, exit date and close of row \<open>j\<close>, return (exit - entry) / entry * 100.  A buy
  without a later sell is in no such pair and yields no trade.  When \<open>calculate_metrics\<close>
  returns a ledger, it is this one.
\<close>

lemma trade_loop_ledger:
  assumes "alternates 1 (filter (\<lambda>s. s \<noteq> 0) (map Signal df))"
    and "\<forall>r\<in>set df. Close r \<noteq> 0"
  shows "(\<exists>ps. scan_trades df = map (\<lambda>(i, j). trade_of (df ! i) (df ! j)) ps
            \<and> sorted_wrt (\<lambda>p q. snd p < fst q) ps
            \<and> set ps = round_trips (map Signal df))
     \<and> (\<forall>m ts. calculate_metrics df = Inr (Some (m, ts)) \<longrightarrow> ts = scan_trades df)"
proof -
  have "scan_inv df (fold scan_step df scan_init)"
    using assms(1) by (rule scan_inv_fold)
  then have "\<exists>ps. scan_trades df = map (\<lambda>(i, j). trade_of (df ! i) (df ! j)) ps
            \<and> sorted_wrt (\<lambda>p q. snd p < fst q) ps
            \<and> set ps = round_trips (map Signal df)"
    by (simp add: scan_inv_def scan_trades_def)
  then show ?thesis using calculate_metrics_ledger by blast
qed

lemma trade_loop_on_gap_table:
  "scan_trades gap_table = [trade_of (gap_table ! 1) (gap_table ! 3)]"
proof -
  have a: "alternates 1 (filter (\<lambda>s. s \<noteq> 0) (map Signal gap_table))"
    by (simp add: gap_table_def)
  have c: "\<forall>r\<in>set gap_table. Close r \<noteq> 0"
    by (simp add: gap_table_def)
  have sg: "map Signal gap_table = [0, 1, 0] @ [- 1]"
    by (simp add: gap_table_def)
  have r0: "round_trips ([] @ [0]) = round_trips []"
    by (rule round_trips_snoc_other) simp
  have r1: "round_trips ([0] @ [1]) = round_trips [0]"
    by (rule round_trips_snoc_other) simp
  have r2: "round_trips ([0, 1] @ [0]) = round_trips [0, 1]"
    by (rule round_trips_snoc_other) simp
  have r3: "round_trips ([0, 1, 0] @ [- 1]) = insert (1, length [0, 1, 0 :: int]) (round_trips [0, 1, 0])"
    by (rule round_trips_snoc_sell) (simp_all add: nth_Cons' less_Suc_eq)
  have e: "round_trips [] = {}" by (simp add: round_trips_def)
  have rt: "round_trips (map Signal gap_table) = {(1, 3)}"
    using r0 r1 r2 r3 e unfolding sg by simp
  from trade_loop_ledger [OF a c] obtain ps where
    ps: "scan_trades gap_table = map (\<lambda>(i, j). trade_of (gap_table ! i) (gap_table ! j)) ps"
      "sorted_wrt (\<lambda>p q. snd p < fst q) ps"
      "set ps = round_trips (map Signal gap_table)"
    by blast
  have "ps = [(1, 3)]"
  proof (cases ps)
    case Nil
    with ps(3) rt show ?thesis by simp
  next
    case (Cons p qs)
    with ps(3) rt have p: "p = (1, 3)" by auto
    show ?thesis
    proof (cases qs)
      case Nil
      with Cons p show ?thesis by simp
    next
      case (Cons q qs')
      with \<open>ps = p # qs\<close> ps(3) rt have "q = (1, 3)" by auto
      with Cons \<open>ps = p # qs\<close> p ps(2) show ?thesis by simp
    qed
  qed
  with ps(1) show ?thesis by simp
qed

text \<open>
  C5.  The claim: the ledger built by \<open>calculate_metrics\<close> holds one trade for every
  buy-then-sell pair of the Signal series.  On a table that the state machine produces
  with two such pairs (buy at bar 0, sell at bar 2; buy at bar 3, sell at bar 5) the trade
  loop would record both, as the claim says, but \<open>calculate_metrics\<close> returns the absent
  result before the loop runs: no signal difference is 1 or \<open>-2\<close>, so the early check
  finds neither entries nor exits and no ledger is built.
\<close>

theorem calculate_metrics_builds_no_ledger:
  "signals_and_equity twice_conditions = twice_table
   \<and> map Signal twice_table = [1, 0, - 1, 1, 0, - 1]
   \<and> scan_trades twice_table =
       [\<lparr>Entry_Date = Some 0, Exit_Date = 2, Entry_Price = 100, Exit_Price = 110,
         Return_pct = 10\<rparr>,
        \<lparr>Entry_Date = Some 3, Exit_Date = 5, Entry_Price = 100, Exit_Price = 90,
         Return_pct = - 10\<rparr>]
   \<and> diff_fillna0 (map Signal twice_table) = [0, - 1, - 1, 2, - 1, - 1]
   \<and> entries twice_table = []
   \<and> exits twice_table = []
   \<and> calculate_metrics twice_table = Inr None"
proof -
  have "signals_and_equity twice_conditions = twice_table"
    by (simp add: signals_and_equity_def attach_signals_def twice_conditions_def
        twice_table_def equity_loop_def equity_state_def equity_init_def equity_step_def
        set_equity_def upt_rec Let_def)
  moreover have "map Signal twice_table = [1, 0, - 1, 1, 0, - 1]"
    by (simp add: twice_table_def)
  moreover have "scan_trades twice_table =
       [\<lparr>Entry_Date = Some 0, Exit_Date = 2, Entry_Price = 100, Exit_Price = 110,
         Return_pct = 10\<rparr>,
        \<lparr>Entry_Date = Some 3, Exit_Date = 5, Entry_Price = 100, Exit_Price = 90,
         Return_pct = - 10\<rparr>]"
    by (simp add: scan_trades_def twice_table_def scan_step_def scan_init_def)
  moreover have "diff_fillna0 (map Signal twice_table) = [0, - 1, - 1, 2, - 1, - 1]"
    by (simp add: twice_table_def diff_fillna0_def)
  moreover have en: "entries twice_table = []"
    by (simp add: entries_def twice_table_def diff_fillna0_def upt_rec)
  moreover have "exits twice_table = []"
    by (simp add: exits_def twice_table_def diff_fillna0_def upt_rec)
  moreover have "calculate_metrics twice_table = Inr None"
    by (simp add: calculate_metrics_def en)
  ultimately show ?thesis by simp
qed

end
